theory Spec2Isabelle
  imports Main
begin

section \<open>Python's library, as far as the program calls it\<close>

text \<open>
  A Python string is the list of its characters; the characters of the model are the
  code points below 256. Exceptions of Python that nothing in the program catches are
  the values of \<open>py_exception\<close>. \<open>Unmodelled\<close> is none of Python's: it is what the models of
  \<open>re.compile\<close> and of the codecs below answer on an argument they do not cover, and no
  statement about the program concludes it.
\<close>

datatype py_exception =
  UnboundLocalError | IndexError | KeyError | ReError | OSError
  | UnicodeDecodeError | Unmodelled

text \<open>\<open>sep.join(xs)\<close>.\<close>

fun join :: "string \<Rightarrow> string list \<Rightarrow> string" where
  "join sep [] = []"
| "join sep [x] = x"
| "join sep (x # y # ys) = x @ sep @ join sep (y # ys)"

text \<open>
  \<open>str.strip()\<close>: white space removed at both ends. Of the code points below 256, Python
  counts as white space 9 to 13, 28 to 32, 133 and 160.
\<close>

definition is_space :: "char \<Rightarrow> bool" where
  "is_space c = (c \<in> set [CHR 0x09, CHR 0x0A, CHR 0x0B, CHR 0x0C, CHR 0x0D,
                           CHR 0x1C, CHR 0x1D, CHR 0x1E, CHR 0x1F, CHR 0x20,
                           CHR 0x85, CHR 0xA0])"

definition strip :: "string \<Rightarrow> string" where
  "strip s = rev (dropWhile is_space (rev (dropWhile is_space s)))"


subsection \<open>UTF-8\<close>

text \<open>
  A \<open>bytes\<close> object is the list of its bytes. \<open>str.encode('utf-8')\<close> on the strings of the
  model, where it raises nothing: a code point below 128 is one byte, the others (128 to
  255) are two bytes.
\<close>

type_synonym bytes = "char list"

definition encode_char :: "char \<Rightarrow> bytes" where
  "encode_char c =
     (let n = of_char c :: nat
      in if n < 0x80 then [c] else [char_of (0xC0 + n div 0x40), char_of (0x80 + n mod 0x40)])"

definition encode_utf8 :: "string \<Rightarrow> bytes" where
  "encode_utf8 s = concat (map encode_char s)"

text \<open>
  \<open>bytes.decode('utf-8')\<close>, which is strict. Read from the left:
  \<^item> a byte below \<open>0x80\<close> is its code point;
  \<^item> the bytes \<open>0x80\<close> to \<open>0xBF\<close> (continuation bytes), \<open>0xC0\<close>, \<open>0xC1\<close> and \<open>0xF5\<close> to \<open>0xFF\<close> cannot
    begin a character: \<open>UnicodeDecodeError\<close>;
  \<^item> \<open>0xC2\<close> to \<open>0xDF\<close> begin two bytes, the second a continuation byte, else
    \<open>UnicodeDecodeError\<close>; after \<open>0xC2\<close> and \<open>0xC3\<close> the code point is below 256, after the
    others it is not a character of the model: \<open>Unmodelled\<close>;
  \<^item> \<open>0xE0\<close> to \<open>0xF4\<close> begin three or four bytes, whose code points are no characters of
    the model: \<open>Unmodelled\<close>, valid or not.
\<close>

definition continuation :: "char \<Rightarrow> bool" where
  "continuation b = (0x80 \<le> (of_char b :: nat) \<and> (of_char b :: nat) < 0xC0)"

definition decoded :: "char \<Rightarrow> py_exception + string \<Rightarrow> py_exception + string" where
  "decoded c r = (case r of Inl exn \<Rightarrow> Inl exn | Inr s \<Rightarrow> Inr (c # s))"

fun decode_utf8 :: "bytes \<Rightarrow> py_exception + string" where
  "decode_utf8 [] = Inr []"
| "decode_utf8 [b] =
     (let n = of_char b :: nat
      in if n < 0x80 then Inr [b]
         else if 0xE0 \<le> n \<and> n < 0xF5 then Inl Unmodelled
         else Inl UnicodeDecodeError)"
| "decode_utf8 (b # b2 # bs) =
     (let n = of_char b :: nat
      in if n < 0x80 then decoded b (decode_utf8 (b2 # bs))
         else if n < 0xC2 then Inl UnicodeDecodeError
         else if n < 0xE0 then
           (if \<not> continuation b2 then Inl UnicodeDecodeError
            else if n < 0xC4
              then decoded (char_of ((n - 0xC0) * 0x40 + ((of_char b2 :: nat) - 0x80)))
                     (decode_utf8 bs)
            else Inl Unmodelled)
         else if n < 0xF5 then Inl Unmodelled
         else Inl UnicodeDecodeError)"


subsection \<open>Regular expressions\<close>

text \<open>
  \<open>Args.get\<close> and \<open>Args.remove\<close> paste their spellings, unescaped, into two patterns,
  \<^verbatim>\<open>'^-(' + '|'.join(short) + ')$'\<close> and \<^verbatim>\<open>'^--(' + '|'.join(long) + ')=(.+)$'\<close>, and hand
  them to \<open>re.search\<close>. So a spelling is a piece of a regular expression. The methods are
  modelled for any regular-expression library: a function from the pattern to the
  exception that compiling it raises, or to the search function of the compiled pattern,
  which yields the groups 1, 2, ... of the match (\<open>None\<close> in a group that took no part)
  or no match.
\<close>

type_synonym match = "string option list"

type_synonym regex_lib = "string \<Rightarrow> py_exception + (string \<Rightarrow> match option)"

text \<open>
  \<open>py_re\<close> is Python's \<open>re.compile\<close> on the patterns of these two shapes whose group holds
  alternatives made of ordinary characters and of \<open>.\<close> only. Of Python's \<open>re\<close> it writes out:
  \<^item> \<open>.\<close> stands for any character but the line feed;
  \<^item> the alternatives of a group are tried in their order, and \<open>()\<close> holds the one empty
    alternative;
  \<^item> \<open>$\<close> holds at the end of the string and also just before a line feed that ends it;
  \<^item> an alternative that begins with \<open>*\<close> or \<open>+\<close>, the alternatives before it being as
    above, raises \<open>re.error\<close> (nothing to repeat).
  On every other pattern it answers \<open>Unmodelled\<close>.
\<close>

definition newline :: char where
  "newline = CHR 0x0A"

definition special :: "char \<Rightarrow> bool" where
  "special c = (c \<in> set ''.^$*+?{}[]|()'' \<or> c = CHR 0x5C)"

datatype item = Lit char | Dot

fun items_of :: "string \<Rightarrow> item list option" where
  "items_of [] = Some []"
| "items_of (c # cs) =
     (if c = CHR ''.'' then map_option (Cons Dot) (items_of cs)
      else if special c then None
      else map_option (Cons (Lit c)) (items_of cs))"

text \<open>What is left of the string after the items matched its beginning.\<close>

fun match_items :: "item list \<Rightarrow> string \<Rightarrow> string option" where
  "match_items [] s = Some s"
| "match_items (i # is) [] = None"
| "match_items (Lit c # is) (d # s) = (if c = d then match_items is s else None)"
| "match_items (Dot # is) (d # s) = (if d \<noteq> newline then match_items is s else None)"

text \<open>The group's text cut at every \<open>|\<close>.\<close>

fun split_bar :: "string \<Rightarrow> string list" where
  "split_bar [] = [[]]"
| "split_bar (c # cs) =
     (if c = CHR ''|'' then [] # split_bar cs
      else (c # hd (split_bar cs)) # tl (split_bar cs))"

datatype group_body = Alternatives "item list list" | Nothing_to_repeat | Beyond

fun parse_alternatives :: "string list \<Rightarrow> group_body" where
  "parse_alternatives [] = Alternatives []"
| "parse_alternatives (a # as) =
     (case items_of a of
        Some is \<Rightarrow>
          (case parse_alternatives as of
             Alternatives rest \<Rightarrow> Alternatives (is # rest)
           | Nothing_to_repeat \<Rightarrow> Nothing_to_repeat
           | Beyond \<Rightarrow> Beyond)
      | None \<Rightarrow>
          (case a of
             [] \<Rightarrow> Beyond
           | c # cs \<Rightarrow> if c = CHR ''*'' \<or> c = CHR ''+'' then Nothing_to_repeat else Beyond))"

definition dollar :: "string \<Rightarrow> bool" where
  "dollar rest = (rest = [] \<or> rest = [newline])"

fun strip_prefix :: "string \<Rightarrow> string \<Rightarrow> string option" where
  "strip_prefix [] s = Some s"
| "strip_prefix (p # ps) [] = None"
| "strip_prefix (p # ps) (c # cs) = (if p = c then strip_prefix ps cs else None)"

definition strip_suffix :: "string \<Rightarrow> string \<Rightarrow> string option" where
  "strip_suffix suf s = map_option rev (strip_prefix (rev suf) (rev s))"

text \<open>
  \<^verbatim>\<open>^-(a1|...|an)$\<close> on a string: after the \<open>-\<close>, the first alternative that matches up to
  a place where \<open>$\<close> holds; group 1 is what it matched.
\<close>

fun first_short :: "item list list \<Rightarrow> string \<Rightarrow> match option" where
  "first_short [] s = None"
| "first_short (a # as) s =
     (case match_items a s of
        None \<Rightarrow> first_short as s
      | Some rest \<Rightarrow>
          if dollar rest then Some [Some (take (length s - length rest) s)]
          else first_short as s)"

definition short_search :: "item list list \<Rightarrow> string \<Rightarrow> match option" where
  "short_search alts s =
     (case strip_prefix ''-'' s of None \<Rightarrow> None | Some s' \<Rightarrow> first_short alts s')"

text \<open>
  \<^verbatim>\<open>=(.+)$\<close>: after the \<open>=\<close>, the longest run of characters other than the line feed,
  which must be non-empty and must reach a place where \<open>$\<close> holds. A shorter run ends
  before a character that is no line feed, where \<open>$\<close> fails, so no backtracking finds
  another match.
\<close>

definition dot_plus_dollar :: "string \<Rightarrow> string option" where
  "dot_plus_dollar r =
     (let v = takeWhile (\<lambda>c. c \<noteq> newline) r;
          rest = dropWhile (\<lambda>c. c \<noteq> newline) r
      in if v \<noteq> [] \<and> dollar rest then Some v else None)"

definition value_group :: "string \<Rightarrow> string option" where
  "value_group s =
     (case strip_prefix ''='' s of None \<Rightarrow> None | Some r \<Rightarrow> dot_plus_dollar r)"

text \<open>
  \<^verbatim>\<open>^--(a1|...|an)=(.+)$\<close> on a string: after the \<open>--\<close>, the first alternative after which
  the rest of the pattern matches; group 1 is what the alternative matched, group 2 the
  value.
\<close>

fun first_long :: "item list list \<Rightarrow> string \<Rightarrow> match option" where
  "first_long [] s = None"
| "first_long (a # as) s =
     (case match_items a s of
        None \<Rightarrow> first_long as s
      | Some rest \<Rightarrow>
          (case value_group rest of
             None \<Rightarrow> first_long as s
           | Some v \<Rightarrow> Some [Some (take (length s - length rest) s), Some v]))"

definition long_search :: "item list list \<Rightarrow> string \<Rightarrow> match option" where
  "long_search alts s =
     (case strip_prefix ''--'' s of None \<Rightarrow> None | Some s' \<Rightarrow> first_long alts s')"

definition compile_group ::
  "(item list list \<Rightarrow> string \<Rightarrow> match option) \<Rightarrow> string \<Rightarrow> py_exception + (string \<Rightarrow> match option)"
where
  "compile_group search body =
     (case parse_alternatives (split_bar body) of
        Alternatives alts \<Rightarrow> Inr (search alts)
      | Nothing_to_repeat \<Rightarrow> Inl ReError
      | Beyond \<Rightarrow> Inl Unmodelled)"

definition py_re :: regex_lib where
  "py_re pattern =
     (case strip_prefix ''^--('' pattern of
        Some rest \<Rightarrow>
          (case strip_suffix '')=(.+)$'' rest of
             Some body \<Rightarrow> compile_group long_search body
           | None \<Rightarrow> Inl Unmodelled)
      | None \<Rightarrow>
          (case strip_prefix ''^-('' pattern of
             Some rest \<Rightarrow>
               (case strip_suffix '')$'' rest of
                  Some body \<Rightarrow> compile_group short_search body
                | None \<Rightarrow> Inl Unmodelled)
           | None \<Rightarrow> Inl Unmodelled))"

text \<open>\<open>re.search(pattern, string)\<close> and \<open>match.group(n)\<close> for \<open>n\<close> from 1.\<close>

definition re_search :: "regex_lib \<Rightarrow> string \<Rightarrow> string \<Rightarrow> py_exception + match option" where
  "re_search lib pattern s =
     (case lib pattern of Inl exn \<Rightarrow> Inl exn | Inr search \<Rightarrow> Inr (search s))"

definition match_group :: "match \<Rightarrow> nat \<Rightarrow> py_exception + string option" where
  "match_group m n = (if 0 < n \<and> n \<le> length m then Inr (m ! (n - 1)) else Inl IndexError)"

section \<open>\<open>Args.get\<close> and \<open>Args.remove\<close>\<close>

definition short_pattern :: "string list \<Rightarrow> string" where
  "short_pattern short = ''^-('' @ join ''|'' short @ '')$''"

definition long_pattern :: "string list \<Rightarrow> string" where
  "long_pattern long = ''^--('' @ join ''|'' long @ '')=(.+)$''"

text \<open>
  The two searches of the loops. \<open>None\<close> for a spelling list is Python's \<open>None\<close> default:
  then the search is not made and there is no match.
\<close>

definition short_test :: "regex_lib \<Rightarrow> string list option \<Rightarrow> string \<Rightarrow> py_exception + match option"
where
  "short_test lib short arg =
     (case short of None \<Rightarrow> Inr None | Some ss \<Rightarrow> re_search lib (short_pattern ss) arg)"

definition long_test :: "regex_lib \<Rightarrow> string list option \<Rightarrow> string \<Rightarrow> py_exception + match option"
where
  "long_test lib long arg =
     (case long of None \<Rightarrow> Inr None | Some ls \<Rightarrow> re_search lib (long_pattern ls) arg)"

text \<open>
  The loop of \<open>get\<close> over the tokens; \<open>val\<close> is the local \<open>value\<close>, set when the token
  before was a short flag.
\<close>

fun get_loop ::
  "regex_lib \<Rightarrow> string list option \<Rightarrow> string list option \<Rightarrow> bool \<Rightarrow> string list \<Rightarrow>
   py_exception + string option"
where
  "get_loop lib short long val [] = Inr None"
| "get_loop lib short long val (arg # rest) =
     (if short \<noteq> None \<and> val then Inr (Some arg)
      else case short_test lib short arg of
             Inl exn \<Rightarrow> Inl exn
           | Inr (Some m) \<Rightarrow> get_loop lib short long True rest
           | Inr None \<Rightarrow>
               (case long_test lib long arg of
                  Inl exn \<Rightarrow> Inl exn
                | Inr (Some m) \<Rightarrow> match_group m 2
                | Inr None \<Rightarrow> get_loop lib short long val rest))"

definition get ::
  "regex_lib \<Rightarrow> string list \<Rightarrow> string list option \<Rightarrow> string list option \<Rightarrow>
   py_exception + string option"
where
  "get lib args short long = get_loop lib short long False args"

text \<open>
  The loop of \<open>remove\<close> over the tokens; \<open>ret\<close> is the vector under construction, \<open>val\<close>
  the local \<open>value\<close>, \<open>vals\<close> the optional \<open>values\<close> filter.
\<close>

fun remove_loop ::
  "regex_lib \<Rightarrow> string list option \<Rightarrow> string list option \<Rightarrow> string list option \<Rightarrow>
   bool \<Rightarrow> string list \<Rightarrow> string list \<Rightarrow> py_exception + string list"
where
  "remove_loop lib short long vals val ret [] = Inr ret"
| "remove_loop lib short long vals val ret (arg # rest) =
     (if short \<noteq> None \<and> val then
        (if vals \<noteq> None \<and> arg \<notin> set (the vals)
         then remove_loop lib short long vals False (ret @ [arg]) rest
         else remove_loop lib short long vals False ret rest)
      else case short_test lib short arg of
             Inl exn \<Rightarrow> Inl exn
           | Inr (Some m) \<Rightarrow> remove_loop lib short long vals True ret rest
           | Inr None \<Rightarrow>
               (case long_test lib long arg of
                  Inl exn \<Rightarrow> Inl exn
                | Inr (Some m) \<Rightarrow> remove_loop lib short long vals val ret rest
                | Inr None \<Rightarrow> remove_loop lib short long vals val (ret @ [arg]) rest))"

definition remove ::
  "regex_lib \<Rightarrow> string list \<Rightarrow> string list option \<Rightarrow> string list option \<Rightarrow> string list option \<Rightarrow>
   py_exception + string list"
where
  "remove lib args short long vals = remove_loop lib short long vals False [] args"

text \<open>
  The same method on objects: the store holds the list objects, each at its address.
  \<open>Args([])\<close> puts a new empty list at the next address, the \<open>for\<close> loop reads the receiver
  by position as long as the position is inside it, and \<open>ret.append\<close> writes to the new
  object. The loop of a \<open>for\<close> over a list that grows under it does not end: the result
  is \<open>None\<close> then.
\<close>

type_synonym store = "string list list"

partial_function (option) remove_iter ::
  "regex_lib \<Rightarrow> string list option \<Rightarrow> string list option \<Rightarrow> string list option \<Rightarrow>
   nat \<Rightarrow> nat \<Rightarrow> nat \<Rightarrow> bool \<Rightarrow> store \<Rightarrow> (py_exception + store) option"
where
  "remove_iter lib short long vals self ret i val h =
     (if i < length (h ! self) then
        (let arg = h ! self ! i in
         if short \<noteq> None \<and> val then
           (if vals \<noteq> None \<and> arg \<notin> set (the vals)
            then remove_iter lib short long vals self ret (Suc i) False (h[ret := h ! ret @ [arg]])
            else remove_iter lib short long vals self ret (Suc i) False h)
         else case short_test lib short arg of
                Inl exn \<Rightarrow> Some (Inl exn)
              | Inr (Some m) \<Rightarrow> remove_iter lib short long vals self ret (Suc i) True h
              | Inr None \<Rightarrow>
                  (case long_test lib long arg of
                     Inl exn \<Rightarrow> Some (Inl exn)
                   | Inr (Some m) \<Rightarrow> remove_iter lib short long vals self ret (Suc i) val h
                   | Inr None \<Rightarrow>
                       remove_iter lib short long vals self ret (Suc i) val
                         (h[ret := h ! ret @ [arg]])))
      else Some (Inr h))"

text \<open>The method: the store after the call and the address of the returned object.\<close>

definition Args_remove ::
  "regex_lib \<Rightarrow> store \<Rightarrow> nat \<Rightarrow> string list option \<Rightarrow> string list option \<Rightarrow> string list option \<Rightarrow>
   (py_exception + store \<times> nat) option"
where
  "Args_remove lib h self short long vals =
     (let ret = length h in
      case remove_iter lib short long vals self ret 0 False (h @ [[]]) of
        None \<Rightarrow> None
      | Some (Inl exn) \<Rightarrow> Some (Inl exn)
      | Some (Inr h') \<Rightarrow> Some (Inr (h', ret)))"

section \<open>Settings, the editor and its surroundings\<close>

text \<open>
  A transformation as the settings hold it. \<open>scope\<close> is the dictionary from selector to
  input format, kept as the list of its items in iteration order (its keys are distinct).
\<close>

record transformation =
  scope :: "(string \<times> string) list"
  pandoc_arguments :: "string list"
  new_buffer :: bool
  syntax_file :: string

text \<open>What the user sees: \<open>sublime.error_message\<close>, \<open>sublime.message_dialog\<close>, \<open>print\<close>.\<close>

datatype notice = ErrorMessage string | MessageDialog string | Printed string

text \<open>
  Programs started: \<open>subprocess.Popen\<close> and \<open>subprocess.call\<close> with their argument list,
  \<open>os.startfile\<close> with its path.
\<close>

datatype launch = Call "string list" | StartFile string

record buffer =
  content :: string
  syntax_id :: string

text \<open>
  The state that the commands read and change: the active view, the views opened by
  \<open>new_file\<close>, the notices shown, the programs started, and the field \<open>options\<close> of the
  prompt command.
\<close>

record world =
  view :: buffer
  new_views :: "buffer list"
  notices :: "notice list"
  launched :: "launch list"
  options :: "string list"

datatype platform = OSX | Windows | Linux

text \<open>
  What the program asks of its surroundings and cannot change: the score of a selector
  at the start of the view (\<open>view.score_selector(0, scope)\<close>), the syntax setting of the
  view, the merged settings (\<open>transformations\<close>, \<open>pandoc-path\<close>, \<open>pandoc-format-file\<close>), the
  file system and the search path, the name that \<open>tempfile.NamedTemporaryFile\<close> yields,
  the platform, whether a launch of the viewer raises, and the converter:
  \<open>subprocess.Popen(cmd, ...)\<close> raises (\<open>OSError\<close> when the program cannot be started), or
  yields the process, whose \<open>communicate\<close> takes the bytes for the input stream and yields
  the bytes of the output stream and of the diagnostic stream.
\<close>

record env =
  score_selector :: "string \<Rightarrow> int"
  view_syntax :: string
  transformation_table :: "(string \<times> transformation) list"
  pandoc_path :: "string option"
  format_file :: "string list"
  path_exists :: "string \<Rightarrow> bool"
  search_path :: "string list"
  path_join :: "string \<Rightarrow> string \<Rightarrow> string"
  temp_name :: string
  popen :: "string list \<Rightarrow> py_exception + (bytes \<Rightarrow> bytes \<times> bytes)"
  sublime_platform :: platform
  os_name_posix :: bool
  launch_raises :: "launch \<Rightarrow> bool"


section \<open>\<open>PromptPandocCommand\<close>\<close>

text \<open>
  A Python dictionary as the list of its items in insertion order, the order in which
  Python (from 3.7 on) iterates over it: storing under a key that is present replaces
  the value in place, storing under a new key appends.
\<close>

fun dict_set :: "('k \<times> 'v) list \<Rightarrow> 'k \<Rightarrow> 'v \<Rightarrow> ('k \<times> 'v) list" where
  "dict_set [] k v = [(k, v)]"
| "dict_set ((k', v') # d) k v = (if k' = k then (k, v) # d else (k', v') # dict_set d k v)"

text \<open>\<open>OrderedDict(pairs)\<close>: the pairs stored one after the other.\<close>

definition ordered_dict :: "('k \<times> 'v) list \<Rightarrow> ('k \<times> 'v) list" where
  "ordered_dict pairs = fold (\<lambda>(k, v) d. dict_set d k v) pairs []"

text \<open>The inner loop of \<open>transformations\<close>, over the selectors of one transformation.\<close>

fun rank_scopes ::
  "(string \<Rightarrow> int) \<Rightarrow> string \<Rightarrow> string list \<Rightarrow> (string \<times> int) list \<Rightarrow> (string \<times> int) list"
where
  "rank_scopes score_of label [] ranked = ranked"
| "rank_scopes score_of label (sel # rest) ranked =
     (let score = score_of sel in
      if score = 0 then rank_scopes score_of label rest ranked
      else if map_of ranked label = None \<or> the (map_of ranked label) < score
        then rank_scopes score_of label rest (dict_set ranked label score)
      else rank_scopes score_of label rest ranked)"

text \<open>The outer loop, over the items of the transformations.\<close>

fun rank_all ::
  "(string \<Rightarrow> int) \<Rightarrow> (string \<times> transformation) list \<Rightarrow> (string \<times> int) list \<Rightarrow>
   (string \<times> int) list"
where
  "rank_all score_of [] ranked = ranked"
| "rank_all score_of ((label, settings) # rest) ranked =
     rank_all score_of rest (rank_scopes score_of label (map fst (scope settings)) ranked)"

text \<open>
  The message shown when nothing matches; the specification calls this failure
  \<open>NoMatchError\<close>.
\<close>

definition NoMatchError :: "string \<Rightarrow> notice" where
  "NoMatchError syn = ErrorMessage (''No transformations configured for the syntax '' @ syn)"

text \<open>
  \<open>transformations\<close>: the returned value (\<open>None\<close> after the error message) and the state
  after the call. \<open>sorted\<close> is Python's stable sort by the key; \<open>sort_key\<close> is stable too.
\<close>

definition transformations :: "env \<Rightarrow> world \<Rightarrow> string list option \<times> world" where
  "transformations e w =
     (let ranked = rank_all (score_selector e) (transformation_table e) [] in
      if length ranked = 0
      then (None, w\<lparr>notices := notices w @ [NoMatchError (view_syntax e)]\<rparr>)
      else let opts = rev (map fst (ordered_dict (sort_key snd ranked)))
           in (Some opts, w\<lparr>options := opts\<rparr>))"

text \<open>
  \<open>xs[i]\<close> on a Python list: positions \<open>0\<close> to \<open>len(xs) - 1\<close> from the front, \<open>-1\<close> down to
  \<open>-len(xs)\<close> from the back, \<open>IndexError\<close> for every other index.
\<close>

definition py_index :: "'a list \<Rightarrow> int \<Rightarrow> py_exception + 'a" where
  "py_index xs i =
     (if 0 \<le> i \<and> i < int (length xs) then Inr (xs ! nat i)
      else if i < 0 \<and> - int (length xs) \<le> i then Inr (xs ! nat (int (length xs) + i))
      else Inl IndexError)"

text \<open>\<open>d[k]\<close> in Python: a missing key raises.\<close>

definition py_item :: "('k \<times> 'v) list \<Rightarrow> 'k \<Rightarrow> py_exception + 'v" where
  "py_item d k = (case map_of d k of None \<Rightarrow> Inl KeyError | Some v \<Rightarrow> Inr v)"

section \<open>\<open>PandocCommand\<close>\<close>

text \<open>
  \<open>_find_binary(name, default)\<close>: the path found, and the error message shown when none
  is; the specification calls this failure \<open>ExecutableNotFoundError\<close>.
\<close>

definition find_binary :: "env \<Rightarrow> string \<Rightarrow> string option \<Rightarrow> string option \<times> notice list" where
  "find_binary e name default_path =
     (case default_path of
        Some d \<Rightarrow>
          if path_exists e d then (Some d, [])
          else (None, [ErrorMessage (''configured path for '' @ name @ '' '' @ d @ '' not found.'')])
      | None \<Rightarrow>
          (case find (path_exists e) (map (\<lambda>dirname. path_join e dirname name) (search_path e)) of
             Some p \<Rightarrow> (Some p, [])
           | None \<Rightarrow> (None, [ErrorMessage ''Could not find pandoc executable on PATH.''])))"

text \<open>
  The loop that picks the input format: the locals \<open>score\<close> and \<open>iformat\<close>, the second
  unbound (\<open>None\<close>) until the loop assigns it.
\<close>

fun iformat_loop ::
  "(string \<Rightarrow> int) \<Rightarrow> (string \<times> string) list \<Rightarrow> int \<Rightarrow> string option \<Rightarrow> int \<times> string option"
where
  "iformat_loop score_of [] score iformat = (score, iformat)"
| "iformat_loop score_of ((sel, c_iformat) # rest) score iformat =
     (let c_score = score_of sel in
      if c_score \<le> score then iformat_loop score_of rest score iformat
      else iformat_loop score_of rest c_score (Some c_iformat))"

definition resolve_iformat :: "(string \<Rightarrow> int) \<Rightarrow> (string \<times> string) list \<Rightarrow> string option" where
  "resolve_iformat score_of sc = snd (iformat_loop score_of sc 0 None)"

text \<open>
  The configured parameters after the output format is looked up, the PDF case handled
  and the output path added: the output format, the output path when the format is
  written to a file, and the argument vector. The searches are Python's; an exception of
  \<open>get\<close> or \<open>remove\<close> ends the command.
\<close>

definition output_format :: "string list \<Rightarrow> py_exception + string option" where
  "output_format args = get py_re args (Some [''t'', ''w'']) (Some [''to'', ''write''])"

definition pdf_handling :: "string option \<Rightarrow> string list \<Rightarrow> py_exception + string list" where
  "pdf_handling oformat args =
     (if oformat = Some ''pdf''
      then remove py_re args (Some [''t'', ''w'']) (Some [''to'', ''write'']) (Some [''pdf''])
      else Inr args)"

definition writes_file :: "env \<Rightarrow> string option \<Rightarrow> bool" where
  "writes_file e oformat = (oformat \<noteq> None \<and> the oformat \<in> set (format_file e))"

definition output_file ::
  "env \<Rightarrow> string option \<Rightarrow> string list \<Rightarrow>
   py_exception + string option \<times> string option \<times> string list"
where
  "output_file e oformat args =
     (if writes_file e oformat then
        (case get py_re args (Some [''o'']) (Some [''output'']) of
           Inl exn \<Rightarrow> Inl exn
         | Inr None \<Rightarrow>
             (let output_path = temp_name e @ ''.'' @ the oformat
              in Inr (oformat, Some output_path, args @ [''-o'', output_path]))
         | Inr (Some output_path) \<Rightarrow> Inr (oformat, Some output_path, args))
      else Inr (oformat, None, args))"

definition configured ::
  "env \<Rightarrow> transformation \<Rightarrow> py_exception + string option \<times> string option \<times> string list"
where
  "configured e t =
     (let args = pandoc_arguments t
      in case output_format args of
           Inl exn \<Rightarrow> Inl exn
         | Inr oformat \<Rightarrow>
             (case pdf_handling oformat args of
                Inl exn \<Rightarrow> Inl exn
              | Inr args \<Rightarrow> output_file e oformat args))"

definition final_args :: "env \<Rightarrow> transformation \<Rightarrow> py_exception + string list" where
  "final_args e t =
     (case configured e t of Inl exn \<Rightarrow> Inl exn | Inr (oformat, output_path, args) \<Rightarrow> Inr args)"

text \<open>
  The message of the error path, from the command line and the decoded diagnostic text;
  the specification calls this failure \<open>ConversionError\<close>.
\<close>

definition ConversionError :: "string list \<Rightarrow> string \<Rightarrow> notice" where
  "ConversionError cmd diag =
     ErrorMessage (join [CHR 0x0A, CHR 0x0A] [''Error when running:'', join '' '' cmd, strip diag])"

text \<open>The viewer for a written file, by platform; a launch that raises shows a dialog.\<close>

definition viewer :: "env \<Rightarrow> string \<Rightarrow> launch option" where
  "viewer e output_path =
     (if sublime_platform e = OSX then Some (Call [''open'', output_path])
      else if sublime_platform e = Windows then Some (StartFile output_path)
      else if os_name_posix e then Some (Call [''xdg-open'', output_path])
      else None)"

definition open_file :: "env \<Rightarrow> string \<Rightarrow> world \<Rightarrow> world" where
  "open_file e output_path w =
     (case viewer e output_path of
        None \<Rightarrow> w
      | Some l \<Rightarrow>
          if launch_raises e l
          then w\<lparr>notices := notices w @ [MessageDialog (''Wrote to file '' @ output_path)]\<rparr>
          else w\<lparr>launched := launched w @ [l]\<rparr>)"

text \<open>\<open>view.replace(edit, Region(a, b), text)\<close>.\<close>

definition replace_region :: "nat \<times> nat \<Rightarrow> string \<Rightarrow> buffer \<Rightarrow> buffer" where
  "replace_region region new b =
     b\<lparr>content := take (fst region) (content b) @ new @ drop (snd region) (content b)\<rparr>"

text \<open>
  The end of \<open>run\<close>, when the output stream is not empty: with \<open>new-buffer\<close> the window
  opens a new, empty view and the region becomes the whole of it; then the output is
  decoded, which may raise; the decoded text replaces the region and the syntax is set.
\<close>

definition write_buffer ::
  "transformation \<Rightarrow> nat \<times> nat \<Rightarrow> bytes \<Rightarrow> world \<Rightarrow> py_exception + world"
where
  "write_buffer t region result w =
     (if new_buffer t then
        (let fresh = \<lparr>content = [], syntax_id = []\<rparr>;
             region = (0, length (content fresh))
         in case decode_utf8 result of
              Inl exn \<Rightarrow> Inl exn
            | Inr out \<Rightarrow>
                Inr (w\<lparr>new_views := new_views w @
                          [(replace_region region out fresh)\<lparr>syntax_id := syntax_file t\<rparr>]\<rparr>))
      else case decode_utf8 result of
             Inl exn \<Rightarrow> Inl exn
           | Inr out \<Rightarrow>
               Inr (w\<lparr>view := (replace_region region out (view w))\<lparr>syntax_id := syntax_file t\<rparr>\<rparr>))"

text \<open>
  \<open>run\<close> from the start of the converter on: \<open>Popen\<close>, \<open>communicate\<close> on the encoded
  contents, then the error path, on which the diagnostic stream is decoded before the
  message is shown, or the printing of the command line, the viewer and the buffer.
\<close>

definition run_converter ::
  "env \<Rightarrow> transformation \<Rightarrow> nat \<times> nat \<Rightarrow> string \<Rightarrow> string list \<Rightarrow>
   string option \<Rightarrow> string option \<Rightarrow> world \<Rightarrow> py_exception + world"
where
  "run_converter e t region contents cmd oformat output_path w =
     (case popen e cmd of
        Inl exn \<Rightarrow> Inl exn
      | Inr process \<Rightarrow>
          (let (result, error) = process (encode_utf8 contents);
               w = w\<lparr>launched := launched w @ [Call cmd]\<rparr>
           in if error \<noteq> [] then
                (case decode_utf8 error of
                   Inl exn \<Rightarrow> Inl exn
                 | Inr diag \<Rightarrow> Inr (w\<lparr>notices := notices w @ [ConversionError cmd diag]\<rparr>))
              else
                (let w = w\<lparr>notices := notices w @ [Printed (join '' '' cmd)]\<rparr>;
                     w = (if writes_file e oformat then open_file e (the output_path) w else w)
                 in if result \<noteq> [] then write_buffer t region result w else Inr w)))"

text \<open>
  \<open>PandocCommand.run\<close>. The result is the state after the command, or the exception
  that ended it.
\<close>

definition run :: "env \<Rightarrow> transformation \<Rightarrow> world \<Rightarrow> py_exception + world" where
  "run e t w =
     (let region = (0, length (content (view w)));
          contents = content (view w)
      in case find_binary e ''pandoc'' (pandoc_path e) of
           (None, shown) \<Rightarrow> Inr (w\<lparr>notices := notices w @ shown\<rparr>)
         | (Some pandoc, shown) \<Rightarrow>
             (case resolve_iformat (score_selector e) (scope t) of
                None \<Rightarrow> Inl UnboundLocalError
              | Some iformat \<Rightarrow>
                  (case configured e t of
                     Inl exn \<Rightarrow> Inl exn
                   | Inr (oformat, output_path, args) \<Rightarrow>
                       run_converter e t region contents ([pandoc] @ [''-f'', iformat] @ args)
                         oformat output_path w)))"

text \<open>
  \<open>PromptPandocCommand.transform\<close>: \<open>run_command('pandoc', ...)\<close> runs the command above
  on the active view.
\<close>

definition transform :: "env \<Rightarrow> int \<Rightarrow> world \<Rightarrow> py_exception + world" where
  "transform e i w =
     (if i = -1 then Inr w
      else case py_index (options w) i of
             Inl exn \<Rightarrow> Inl exn
           | Inr label \<Rightarrow>
               (case py_item (transformation_table e) label of
                  Inl exn \<Rightarrow> Inl exn
                | Inr transformation \<Rightarrow> run e transformation w))"

section \<open>Vocabulary of the claims on \<open>Args\<close>\<close>

text \<open>
  A token is a flag token, for a library and spelling lists, when one of the two
  searches of the loops finds a match in it. The patterns are valid when the library
  compiles them. No token that follows a short flag is itself a flag token: the values
  of the flags are disjoint from the flags.
\<close>

definition short_hit :: "regex_lib \<Rightarrow> string list option \<Rightarrow> string \<Rightarrow> bool" where
  "short_hit lib short arg =
     (case short_test lib short arg of Inl exn \<Rightarrow> False | Inr None \<Rightarrow> False | Inr (Some m) \<Rightarrow> True)"

definition long_hit :: "regex_lib \<Rightarrow> string list option \<Rightarrow> string \<Rightarrow> bool" where
  "long_hit lib long arg =
     (case long_test lib long arg of Inl exn \<Rightarrow> False | Inr None \<Rightarrow> False | Inr (Some m) \<Rightarrow> True)"

definition is_flag :: "regex_lib \<Rightarrow> string list option \<Rightarrow> string list option \<Rightarrow> string \<Rightarrow> bool"
where
  "is_flag lib short long arg = (short_hit lib short arg \<or> long_hit lib long arg)"

definition valid_patterns :: "regex_lib \<Rightarrow> string list option \<Rightarrow> string list option \<Rightarrow> bool"
where
  "valid_patterns lib short long =
     ((case short of None \<Rightarrow> True | Some ss \<Rightarrow> \<not> isl (lib (short_pattern ss))) \<and>
      (case long of None \<Rightarrow> True | Some ls \<Rightarrow> \<not> isl (lib (long_pattern ls))))"

fun values_disjoint ::
  "regex_lib \<Rightarrow> string list option \<Rightarrow> string list option \<Rightarrow> string list \<Rightarrow> bool"
where
  "values_disjoint lib short long [] = True"
| "values_disjoint lib short long [a] = True"
| "values_disjoint lib short long (a # b # rest) =
     ((short_hit lib short a \<longrightarrow> \<not> is_flag lib short long b) \<and>
      values_disjoint lib short long (b # rest))"

text \<open>
  The two loops with the searches taken as given: \<open>sh\<close> tells the short matches, \<open>lh\<close>
  the long ones, \<open>lv\<close> what \<open>get\<close> returns at a long match. With valid patterns the loops
  are these scans.
\<close>

definition long_result ::
  "regex_lib \<Rightarrow> string list option \<Rightarrow> string \<Rightarrow> (py_exception + string option) option"
where
  "long_result lib long arg =
     (case long_test lib long arg of
        Inl exn \<Rightarrow> None
      | Inr None \<Rightarrow> None
      | Inr (Some m) \<Rightarrow> Some (match_group m 2))"

fun first_flag ::
  "(string \<Rightarrow> bool) \<Rightarrow> (string \<Rightarrow> (py_exception + string option) option) \<Rightarrow> bool \<Rightarrow>
   string list \<Rightarrow> py_exception + string option"
where
  "first_flag sh lv val [] = Inr None"
| "first_flag sh lv val (a # rest) =
     (if val then Inr (Some a)
      else if sh a then first_flag sh lv True rest
      else case lv a of
             Some r \<Rightarrow> r
           | None \<Rightarrow> first_flag sh lv False rest)"

fun drop_flags ::
  "(string \<Rightarrow> bool) \<Rightarrow> (string \<Rightarrow> bool) \<Rightarrow> string list option \<Rightarrow> bool \<Rightarrow> string list \<Rightarrow>
   string list"
where
  "drop_flags sh lh vals val [] = []"
| "drop_flags sh lh vals val (a # rest) =
     (if val then
        (if vals \<noteq> None \<and> a \<notin> set (the vals) then a # drop_flags sh lh vals False rest
         else drop_flags sh lh vals False rest)
      else if sh a then drop_flags sh lh vals True rest
      else if lh a then drop_flags sh lh vals False rest
      else a # drop_flags sh lh vals False rest)"

text \<open>
  A spelling without operator holds none of the characters that are special in a
  regular expression. An empty list of spellings gives the group \<open>()\<close>, which holds the
  empty alternative.
\<close>

definition plain :: "string \<Rightarrow> bool" where
  "plain k = list_all (\<lambda>c. \<not> special c) k"

definition plain_spellings :: "string list option \<Rightarrow> bool" where
  "plain_spellings spellings =
     (case spellings of None \<Rightarrow> True | Some ks \<Rightarrow> ks \<noteq> [] \<and> list_all plain ks)"

definition alternatives :: "string list \<Rightarrow> string list" where
  "alternatives ks = (if ks = [] then [[]] else ks)"

text \<open>
  The matching in the words of the specification: a short flag is a token equal to \<open>-k\<close>
  for a short spelling \<open>k\<close>; a long flag is a token \<open>--key=value\<close> with \<open>key\<close> a long
  spelling and a non-empty value, the first spelling of the list that fits deciding the
  value.
\<close>

definition short_flag :: "string list option \<Rightarrow> string \<Rightarrow> bool" where
  "short_flag short arg =
     (case short of None \<Rightarrow> False | Some ss \<Rightarrow> arg \<in> set (map (\<lambda>k. ''-'' @ k) ss))"

fun first_value :: "string list \<Rightarrow> string \<Rightarrow> string option" where
  "first_value [] arg = None"
| "first_value (k # ks) arg =
     (case strip_prefix (''--'' @ k @ ''='') arg of
        None \<Rightarrow> first_value ks arg
      | Some v \<Rightarrow> if v = [] then first_value ks arg else Some v)"

definition long_value :: "string list option \<Rightarrow> string \<Rightarrow> string option" where
  "long_value long arg = (case long of None \<Rightarrow> None | Some ls \<Rightarrow> first_value ls arg)"

text \<open>
  \<open>get\<close> in the words of the specification: the first flag from the left decides; a
  short flag yields the token after it, a long flag its value.
\<close>

fun get_spec :: "string list option \<Rightarrow> string list option \<Rightarrow> string list \<Rightarrow> string option" where
  "get_spec short long [] = None"
| "get_spec short long (a # rest) =
     (if short_flag short a then (case rest of [] \<Rightarrow> None | b # _ \<Rightarrow> Some b)
      else case long_value long a of
             Some v \<Rightarrow> Some v
           | None \<Rightarrow> get_spec short long rest)"

text \<open>
  \<open>remove\<close> in the words of the specification: a short flag is dropped with the token
  after it, which a values filter keeps when it is not in the filter; a long flag is
  dropped; every other token is kept.
\<close>

fun remove_spec ::
  "string list option \<Rightarrow> string list option \<Rightarrow> string list option \<Rightarrow> string list \<Rightarrow> string list"
where
  "remove_spec short long vals [] = []"
| "remove_spec short long vals (a # rest) =
     (if short_flag short a then
        (case rest of
           [] \<Rightarrow> []
         | b # rest' \<Rightarrow>
             (case vals of
                None \<Rightarrow> remove_spec short long vals rest'
              | Some vs \<Rightarrow>
                  if b \<in> set vs then remove_spec short long vals rest'
                  else b # remove_spec short long vals rest'))
      else if long_value long a \<noteq> None then remove_spec short long vals rest
      else a # remove_spec short long vals rest)"

section \<open>Vocabulary of the claims on the ranking\<close>





section \<open>Vocabulary of the claims on the executor\<close>




section \<open>A configuration for the examples\<close>

text \<open>
  Four transformations, a Markdown view whose selectors score 5 (\<open>text.html.markdown\<close>)
  and 3 (\<open>text.html\<close>), and a converter that writes to its diagnostic stream when it is
  given \<open>--fail\<close> (a message that ends with a no-break space and a line feed, in UTF-8)
  or \<open>--latin1\<close> (the byte \<open>0xFF\<close>, which is no UTF-8), and that cannot be started when it
  is given \<open>--missing\<close>.
\<close>

definition markdown_to_html :: transformation where
  "markdown_to_html =
     \<lparr>scope = [(''text.html.markdown'', ''markdown'')],
      pandoc_arguments = [''-t'', ''html''],
      new_buffer = True,
      syntax_file = ''Packages/HTML/HTML.tmLanguage''\<rparr>"

definition markdown_to_pdf :: transformation where
  "markdown_to_pdf =
     \<lparr>scope = [(''text.html'', ''html''), (''text.html.markdown'', ''markdown'')],
      pandoc_arguments = [''-f'', ''markdown'', ''-t'', ''pdf''],
      new_buffer = False,
      syntax_file = []\<rparr>"

definition html_to_markdown :: transformation where
  "html_to_markdown =
     \<lparr>scope = [(''text.html'', ''html'')],
      pandoc_arguments = [''--to=markdown'', ''--fail''],
      new_buffer = False,
      syntax_file = ''Packages/Markdown/Markdown.tmLanguage''\<rparr>"

definition latex_to_html :: transformation where
  "latex_to_html =
     \<lparr>scope = [(''text.tex.latex'', ''latex'')],
      pandoc_arguments = [''-t'', ''html''],
      new_buffer = True,
      syntax_file = ''Packages/HTML/HTML.tmLanguage''\<rparr>"

definition example_process :: "string list \<Rightarrow> bytes \<Rightarrow> bytes \<times> bytes" where
  "example_process cmd input =
     (if ''--fail'' \<in> set cmd then ([], ''pandoc: boom'' @ [CHR 0xC2, CHR 0xA0, CHR 0x0A])
      else if ''--latin1'' \<in> set cmd then ([], [CHR 0xFF])
      else (''<h1>Title</h1>'', []))"

definition example_env :: env where
  "example_env =
     \<lparr>score_selector =
        (\<lambda>sel. if sel = ''text.html.markdown'' then 5 else if sel = ''text.html'' then 3 else 0),
      view_syntax = ''Packages/Markdown/Markdown.tmLanguage'',
      transformation_table =
        [(''Markdown to HTML'', markdown_to_html), (''Markdown to PDF'', markdown_to_pdf),
         (''HTML to Markdown'', html_to_markdown), (''LaTeX to HTML'', latex_to_html)],
      pandoc_path = Some ''/usr/bin/pandoc'',
      format_file = [''docx'', ''pdf''],
      path_exists = (\<lambda>p. p = ''/usr/bin/pandoc''),
      search_path = [''/usr/bin''],
      path_join = (\<lambda>dirname name. dirname @ ''/'' @ name),
      temp_name = ''/tmp/tmpab12'',
      popen = (\<lambda>cmd. if ''--missing'' \<in> set cmd then Inl OSError else Inr (example_process cmd)),
      sublime_platform = Linux,
      os_name_posix = True,
      launch_raises = (\<lambda>l. False)\<rparr>"

definition example_world :: world where
  "example_world =
     \<lparr>view = \<lparr>content = ''# Title'', syntax_id = ''Packages/Markdown/Markdown.tmLanguage''\<rparr>,
      new_views = [],
      notices = [],
      launched = [],
      options = []\<rparr>"

section \<open>Properties of \<open>Args\<close>\<close>

subsection \<open>The loops as scans\<close>

lemma short_test_valid:
  "valid_patterns lib short long \<Longrightarrow>
   short_test lib short a = Inr None \<and> \<not> short_hit lib short a \<or>
   (\<exists>m. short_test lib short a = Inr (Some m)) \<and> short_hit lib short a"
proof (cases short)
  case None
  then show ?thesis by (simp add: short_test_def short_hit_def)
next
  case (Some ss)
  assume "valid_patterns lib short long"
  then obtain f where "lib (short_pattern ss) = Inr f"
    using Some by (cases "lib (short_pattern ss)") (simp_all add: valid_patterns_def)
  then show ?thesis using Some
    by (cases "f a") (simp_all add: short_test_def short_hit_def re_search_def)
qed

lemma long_test_valid:
  "valid_patterns lib short long \<Longrightarrow>
   long_test lib long a = Inr None \<and> \<not> long_hit lib long a \<and> long_result lib long a = None \<or>
   (\<exists>m. long_test lib long a = Inr (Some m) \<and> long_result lib long a = Some (match_group m 2)) \<and>
   long_hit lib long a"
proof (cases long)
  case None
  then show ?thesis by (simp add: long_test_def long_hit_def long_result_def)
next
  case (Some ls)
  assume "valid_patterns lib short long"
  then obtain f where "lib (long_pattern ls) = Inr f"
    using Some by (cases "lib (long_pattern ls)") (simp_all add: valid_patterns_def)
  then show ?thesis using Some
    by (cases "f a") (simp_all add: long_test_def long_hit_def long_result_def re_search_def)
qed

lemma short_hit_given: "short_hit lib short a \<Longrightarrow> short \<noteq> None"
  by (cases short) (simp_all add: short_hit_def short_test_def)

lemma get_loop_scan:
  assumes "valid_patterns lib short long"
  shows "get_loop lib short long val args =
           first_flag (short_hit lib short) (long_result lib long) (short \<noteq> None \<and> val) args"
proof (induction args arbitrary: val)
  case Nil
  show ?case by simp
next
  case (Cons a rest)
  show ?case
  proof (cases "short \<noteq> None \<and> val")
    case True
    then show ?thesis by simp
  next
    case False
    from short_test_valid[OF assms, of a] show ?thesis
    proof (elim disjE conjE exE)
      fix m assume s: "short_test lib short a = Inr (Some m)" and h: "short_hit lib short a"
      have "short \<noteq> None" using h by (rule short_hit_given)
      then show ?thesis using False s h Cons.IH[of True] by simp
    next
      assume s: "short_test lib short a = Inr None" and h: "\<not> short_hit lib short a"
      from long_test_valid[OF assms, of a] show ?thesis
      proof (elim disjE conjE exE)
        fix m assume "long_test lib long a = Inr (Some m)"
          "long_result lib long a = Some (match_group m 2)"
        then show ?thesis using False s h by auto
      next
        assume "long_test lib long a = Inr None" "long_result lib long a = None"
        then show ?thesis using False s h Cons.IH[of val] by auto
      qed
    qed
  qed
qed

lemma remove_loop_scan:
  assumes "valid_patterns lib short long"
  shows "remove_loop lib short long vals val ret args =
           Inr (ret @ drop_flags (short_hit lib short) (long_hit lib long) vals
                        (short \<noteq> None \<and> val) args)"
proof (induction args arbitrary: val ret)
  case Nil
  show ?case by simp
next
  case (Cons a rest)
  show ?case
  proof (cases "short \<noteq> None \<and> val")
    case True
    then show ?thesis using Cons.IH[of False] by simp
  next
    case False
    from short_test_valid[OF assms, of a] show ?thesis
    proof (elim disjE conjE exE)
      fix m assume s: "short_test lib short a = Inr (Some m)" and h: "short_hit lib short a"
      have "short \<noteq> None" using h by (rule short_hit_given)
      then show ?thesis using False s h Cons.IH[of True ret] by simp
    next
      assume s: "short_test lib short a = Inr None" and h: "\<not> short_hit lib short a"
      from long_test_valid[OF assms, of a] show ?thesis
      proof (elim disjE conjE exE)
        fix m assume "long_test lib long a = Inr (Some m)" "long_hit lib long a"
        then show ?thesis using False s h Cons.IH[of val ret] by auto
      next
        assume "long_test lib long a = Inr None" "\<not> long_hit lib long a"
        then show ?thesis using False s h Cons.IH[of val "ret @ [a]"] by auto
      qed
    qed
  qed
qed

subsection \<open>Properties of the scans\<close>

lemma first_flag_none:
  "\<forall>a\<in>set args. \<not> sh a \<and> lv a = None \<Longrightarrow> first_flag sh lv False args = Inr None"
  by (induction args) simp_all

lemma first_flag_skip:
  "\<forall>a\<in>set pre. \<not> sh a \<and> lv a = None \<Longrightarrow>
   first_flag sh lv False (pre @ args) = first_flag sh lv False args"
  by (induction pre) simp_all

lemma drop_flags_none:
  "\<forall>a\<in>set args. \<not> sh a \<and> \<not> lh a \<Longrightarrow> drop_flags sh lh vals False args = args"
  by (induction args) simp_all

lemma first_flag_cong:
  "\<forall>a\<in>set args. sh a = sh' a \<and> lv a = lv' a \<Longrightarrow>
   first_flag sh lv val args = first_flag sh' lv' val args"
proof (induction args arbitrary: val)
  case Nil
  show ?case by simp
next
  case (Cons a rest)
  have eq: "sh a = sh' a" "lv a = lv' a" using Cons.prems by simp_all
  have IH: "\<And>v. first_flag sh lv v rest = first_flag sh' lv' v rest"
    using Cons by simp
  show ?case unfolding first_flag.simps eq IH ..
qed

lemma drop_flags_cong:
  "\<forall>a\<in>set args. sh a = sh' a \<and> lh a = lh' a \<Longrightarrow>
   drop_flags sh lh vals val args = drop_flags sh' lh' vals val args"
proof (induction args arbitrary: val)
  case Nil
  show ?case by simp
next
  case (Cons a rest)
  have eq: "sh a = sh' a" "lh a = lh' a" using Cons.prems by simp_all
  have IH: "\<And>v. drop_flags sh lh vals v rest = drop_flags sh' lh' vals v rest"
    using Cons by simp
  show ?case unfolding drop_flags.simps eq IH ..
qed

lemma values_disjoint_tail:
  "values_disjoint lib short long (a # rest) \<Longrightarrow> values_disjoint lib short long rest"
  by (cases rest) simp_all

lemma drop_flags_clean:
  assumes "vals = None \<or> values_disjoint lib short long args"
  shows "(\<forall>x\<in>set (drop_flags (short_hit lib short) (long_hit lib long) vals False args).
            \<not> is_flag lib short long x) \<and>
         ((vals \<noteq> None \<longrightarrow> (case args of [] \<Rightarrow> True | b # _ \<Rightarrow> \<not> is_flag lib short long b)) \<longrightarrow>
          (\<forall>x\<in>set (drop_flags (short_hit lib short) (long_hit lib long) vals True args).
             \<not> is_flag lib short long x))"
  using assms
proof (induction args)
  case Nil
  then show ?case by simp
next
  case (Cons a rest)
  let ?sh = "short_hit lib short" and ?lh = "long_hit lib long"
  have tail: "vals = None \<or> values_disjoint lib short long rest"
    using Cons.prems values_disjoint_tail by blast
  note IH = Cons.IH[OF tail]
  have plain: "\<forall>x\<in>set (drop_flags ?sh ?lh vals False rest). \<not> is_flag lib short long x"
    using IH by simp
  have first: "\<forall>x\<in>set (drop_flags ?sh ?lh vals False (a # rest)). \<not> is_flag lib short long x"
  proof (cases "?sh a")
    case True
    have "vals \<noteq> None \<longrightarrow> (case rest of [] \<Rightarrow> True | b # _ \<Rightarrow> \<not> is_flag lib short long b)"
      using Cons.prems True by (cases rest) auto
    then have "\<forall>x\<in>set (drop_flags ?sh ?lh vals True rest). \<not> is_flag lib short long x"
      using IH by blast
    then show ?thesis using True by simp
  next
    case False
    then show ?thesis using plain by (simp add: is_flag_def)
  qed
  have second: "\<forall>x\<in>set (drop_flags ?sh ?lh vals True (a # rest)). \<not> is_flag lib short long x"
    if v: "vals \<noteq> None \<longrightarrow> \<not> is_flag lib short long a"
    using plain v by simp
  show ?case
  proof (intro conjI impI)
    show "\<forall>x\<in>set (drop_flags ?sh ?lh vals False (a # rest)). \<not> is_flag lib short long x"
      by (rule first)
  next
    assume "vals \<noteq> None \<longrightarrow> (case a # rest of [] \<Rightarrow> True | b # _ \<Rightarrow> \<not> is_flag lib short long b)"
    then have "vals \<noteq> None \<longrightarrow> \<not> is_flag lib short long a" by simp
    then show "\<forall>x\<in>set (drop_flags ?sh ?lh vals True (a # rest)). \<not> is_flag lib short long x"
      by (rule second)
  qed
qed

lemma first_flag_spec:
  "first_flag (short_flag short) (\<lambda>a. map_option (\<lambda>v. Inr (Some v)) (long_value long a)) False args
     = Inr (get_spec short long args)"
proof (induction args)
  case Nil
  show ?case by simp
next
  case (Cons a rest)
  show ?case
  proof (cases "short_flag short a")
    case True
    then show ?thesis by (cases rest) simp_all
  next
    case False
    then show ?thesis using Cons by (cases "long_value long a") simp_all
  qed
qed

lemma drop_flags_spec:
  "drop_flags (short_flag short) (\<lambda>a. long_value long a \<noteq> None) vals False args
     = remove_spec short long vals args \<and>
   drop_flags (short_flag short) (\<lambda>a. long_value long a \<noteq> None) vals True args
     = (case args of
          [] \<Rightarrow> []
        | b # rest \<Rightarrow>
            (if vals \<noteq> None \<and> b \<notin> set (the vals) then [b] else []) @
            remove_spec short long vals rest)"
proof (induction args)
  case Nil
  show ?case by simp
next
  case (Cons a rest)
  let ?sh = "short_flag short" and ?lh = "\<lambda>a. long_value long a \<noteq> None"
  have IH1: "drop_flags ?sh ?lh vals False rest = remove_spec short long vals rest"
    and IH2: "drop_flags ?sh ?lh vals True rest =
                (case rest of
                   [] \<Rightarrow> []
                 | b # rest' \<Rightarrow>
                     (if vals \<noteq> None \<and> b \<notin> set (the vals) then [b] else []) @
                     remove_spec short long vals rest')"
    using Cons by simp_all
  have first: "drop_flags ?sh ?lh vals False (a # rest) = remove_spec short long vals (a # rest)"
  proof (cases "?sh a")
    case True
    then show ?thesis using IH2 by (cases rest; cases vals) auto
  next
    case False
    then show ?thesis using IH1 by simp
  qed
  have second: "drop_flags ?sh ?lh vals True (a # rest) =
                  (if vals \<noteq> None \<and> a \<notin> set (the vals) then [a] else []) @
                  remove_spec short long vals rest"
    using IH1 by simp
  show ?case using first second by simp
qed

subsection \<open>The library on spellings without operators\<close>

lemma strip_prefix_append:
  "strip_prefix (p @ q) s = (case strip_prefix p s of None \<Rightarrow> None | Some r \<Rightarrow> strip_prefix q r)"
  by (induction p s rule: strip_prefix.induct) simp_all

lemma strip_prefix_same: "strip_prefix p (p @ s) = Some s"
  by (induction p) simp_all

lemma strip_prefix_Some: "(strip_prefix p s = Some r) = (s = p @ r)"
  by (induction p s rule: strip_prefix.induct) auto

lemma strip_suffix_same: "strip_suffix suf (s @ suf) = Some s"
  by (simp add: strip_suffix_def strip_prefix_same)

lemma items_of_plain: "plain k \<Longrightarrow> items_of k = Some (map Lit k)"
  by (induction k) (auto simp: plain_def special_def)

lemma match_items_Lit: "match_items (map Lit k) s = strip_prefix k s"
  by (induction k s rule: strip_prefix.induct) simp_all

lemma split_bar_nonempty: "split_bar s \<noteq> []"
  by (induction s) simp_all

lemma split_bar_plain: "plain k \<Longrightarrow> split_bar (k @ s) = (k @ hd (split_bar s)) # tl (split_bar s)"
  by (induction k) (auto simp: plain_def special_def split_bar_nonempty)

lemma split_bar_one: "plain k \<Longrightarrow> split_bar k = [k]"
  using split_bar_plain[of k "[]"] by simp

lemma split_bar_cons: "plain k \<Longrightarrow> split_bar (k @ ''|'' @ s) = k # split_bar s"
  using split_bar_plain[of k "''|'' @ s"] by simp

lemma split_bar_join: "list_all plain ks \<Longrightarrow> split_bar (join ''|'' ks) = alternatives ks"
proof (induction "''|''" ks rule: join.induct)
  case 1
  show ?case by (simp add: alternatives_def)
next
  case (2 x)
  then show ?case by (simp add: alternatives_def split_bar_one)
next
  case (3 x y ys)
  then have "split_bar (join ''|'' (y # ys)) = y # ys" and "plain x"
    by (simp_all add: alternatives_def)
  then show ?case using split_bar_cons[of x "join ''|'' (y # ys)"]
    by (simp add: alternatives_def)
qed

lemma parse_alternatives_plain:
  "list_all plain ks \<Longrightarrow> parse_alternatives ks = Alternatives (map (map Lit) ks)"
  by (induction ks) (simp_all add: items_of_plain)

lemma plain_alternatives: "list_all plain ks \<Longrightarrow> list_all plain (alternatives ks)"
  by (simp add: alternatives_def plain_def)

lemma py_re_short:
  assumes "list_all plain ks"
  shows "py_re (short_pattern ks) = Inr (short_search (map (map Lit) (alternatives ks)))"
proof -
  have 1: "strip_prefix ''^--('' (short_pattern ks) = None"
    by (simp add: short_pattern_def)
  have 2: "strip_prefix ''^-('' (short_pattern ks) = Some (join ''|'' ks @ '')$'')"
    by (simp add: short_pattern_def)
  show ?thesis
    by (simp add: py_re_def 1 2 strip_suffix_same compile_group_def split_bar_join[OF assms]
          parse_alternatives_plain[OF plain_alternatives[OF assms]])
qed

lemma py_re_long:
  assumes "list_all plain ks"
  shows "py_re (long_pattern ks) = Inr (long_search (map (map Lit) (alternatives ks)))"
proof -
  have 1: "strip_prefix ''^--('' (long_pattern ks) = Some (join ''|'' ks @ '')=(.+)$'')"
    by (simp add: long_pattern_def)
  show ?thesis
    by (simp add: py_re_def 1 strip_suffix_same compile_group_def split_bar_join[OF assms]
          parse_alternatives_plain[OF plain_alternatives[OF assms]])
qed

lemma valid_patterns_plain:
  "plain_spellings short \<Longrightarrow> plain_spellings long \<Longrightarrow> valid_patterns py_re short long"
  by (auto simp: valid_patterns_def plain_spellings_def py_re_short py_re_long
           split: option.splits)

lemma dollar_clean: "newline \<notin> set r \<Longrightarrow> dollar r = (r = [])"
  by (auto simp: dollar_def)

lemma dot_plus_dollar_clean:
  "newline \<notin> set r \<Longrightarrow> dot_plus_dollar r = (if r = [] then None else Some r)"
proof -
  assume n: "newline \<notin> set r"
  then have tw: "takeWhile (\<lambda>c. c \<noteq> newline) r = r"
    and dw: "dropWhile (\<lambda>c. c \<noteq> newline) r = []"
    by (induction r) auto
  show ?thesis unfolding dot_plus_dollar_def Let_def tw dw by (simp add: dollar_def)
qed

lemma first_short_clean:
  "newline \<notin> set s \<Longrightarrow> (first_short (map (map Lit) ks) s \<noteq> None) = (s \<in> set ks)"
proof (induction ks)
  case Nil
  show ?case by simp
next
  case (Cons k ks)
  show ?case
  proof (cases "strip_prefix k s")
    case None
    then have "s \<noteq> k" using strip_prefix_same[of k "[]"] by auto
    then show ?thesis using None Cons by (simp add: match_items_Lit)
  next
    case (Some rest)
    then have s: "s = k @ rest" by (simp add: strip_prefix_Some)
    then have "newline \<notin> set rest" using Cons.prems by simp
    then have "dollar rest = (rest = [])" by (rule dollar_clean)
    then show ?thesis using Some Cons s by (auto simp: match_items_Lit)
  qed
qed

lemma short_hit_plain:
  assumes "plain_spellings short" and "newline \<notin> set a"
  shows "short_hit py_re short a = short_flag short a"
proof (cases short)
  case None
  then show ?thesis by (simp add: short_hit_def short_test_def short_flag_def)
next
  case (Some ss)
  then have p: "list_all plain ss" and ne: "ss \<noteq> []"
    using assms(1) by (simp_all add: plain_spellings_def)
  have test: "short_test py_re short a = Inr (short_search (map (map Lit) ss) a)"
    using Some ne by (simp add: short_test_def re_search_def py_re_short[OF p] alternatives_def)
  have hit: "short_hit py_re short a = (short_search (map (map Lit) ss) a \<noteq> None)"
    unfolding short_hit_def test by (cases "short_search (map (map Lit) ss) a") simp_all
  show ?thesis
  proof (cases "strip_prefix ''-'' a")
    case None
    then have "\<forall>k. a \<noteq> ''-'' @ k" using strip_prefix_Some[of "''-''" a] by auto
    then have "\<not> short_flag short a" using Some by (auto simp: short_flag_def)
    then show ?thesis using None hit by (simp add: short_search_def)
  next
    case (Some s)
    then have a: "a = ''-'' @ s" using strip_prefix_Some[of "''-''" a s] by simp
    then have "newline \<notin> set s" using assms(2) by auto
    then have "(first_short (map (map Lit) ss) s \<noteq> None) = (s \<in> set ss)"
      by (rule first_short_clean)
    moreover have "short_flag short a = (s \<in> set ss)"
      using \<open>short = Some ss\<close> a by (auto simp: short_flag_def)
    ultimately show ?thesis using Some hit by (simp add: short_search_def)
  qed
qed

lemma first_value_no_dashes: "strip_prefix ''--'' a = None \<Longrightarrow> first_value ls a = None"
proof (induction ls)
  case Nil
  show ?case by simp
next
  case (Cons k ks)
  have "strip_prefix (''--'' @ (k @ ''='')) a = None"
    unfolding strip_prefix_append[of "''--''"] using Cons.prems by simp
  then show ?case using Cons by simp
qed

lemma first_long_clean:
  "newline \<notin> set s \<Longrightarrow>
   map_option (\<lambda>m. match_group m 2) (first_long (map (map Lit) ls) s) =
   map_option (\<lambda>v. Inr (Some v)) (first_value ls (''--'' @ s))"
proof (induction ls)
  case Nil
  show ?case by simp
next
  case (Cons k ks)
  have pre: "strip_prefix (''--'' @ k @ ''='') (''--'' @ s) =
               (case strip_prefix k s of None \<Rightarrow> None | Some r \<Rightarrow> strip_prefix ''='' r)"
    using strip_prefix_append[of k "''=''" s] by simp
  show ?case
  proof (cases "strip_prefix k s")
    case None
    then show ?thesis using Cons pre by (simp add: match_items_Lit)
  next
    case (Some rest)
    then have s: "s = k @ rest" by (simp add: strip_prefix_Some)
    show ?thesis
    proof (cases "strip_prefix ''='' rest")
      case None
      then show ?thesis using Some Cons pre by (simp add: match_items_Lit value_group_def)
    next
      case v: (Some r)
      then have "rest = ''='' @ r" using strip_prefix_Some[of "''=''" rest r] by simp
      then have "newline \<notin> set r" using Cons.prems s by auto
      then have "dot_plus_dollar r = (if r = [] then None else Some r)"
        by (rule dot_plus_dollar_clean)
      then show ?thesis using Some v Cons pre
        by (simp add: match_items_Lit value_group_def match_group_def)
    qed
  qed
qed

lemma long_result_plain:
  assumes "plain_spellings long" and "newline \<notin> set a"
  shows "long_result py_re long a = map_option (\<lambda>v. Inr (Some v)) (long_value long a)"
proof (cases long)
  case None
  then show ?thesis by (simp add: long_result_def long_test_def long_value_def)
next
  case (Some ls)
  then have p: "list_all plain ls" and ne: "ls \<noteq> []"
    using assms(1) by (simp_all add: plain_spellings_def)
  have test: "long_test py_re long a = Inr (long_search (map (map Lit) ls) a)"
    using Some ne by (simp add: long_test_def re_search_def py_re_long[OF p] alternatives_def)
  have res: "long_result py_re long a =
               map_option (\<lambda>m. match_group m 2) (long_search (map (map Lit) ls) a)"
    unfolding long_result_def test by (cases "long_search (map (map Lit) ls) a") simp_all
  show ?thesis
  proof (cases "strip_prefix ''--'' a")
    case None
    then show ?thesis using res Some
      by (simp add: long_search_def long_value_def first_value_no_dashes)
  next
    case s: (Some s)
    then have a: "a = ''--'' @ s" using strip_prefix_Some[of "''--''" a s] by simp
    then have "newline \<notin> set s" using assms(2) by auto
    then show ?thesis using res Some s first_long_clean[of s ls]
      by (simp add: long_search_def long_value_def a)
  qed
qed

lemma long_hit_result: "long_hit lib long a = (long_result lib long a \<noteq> None)"
  by (simp add: long_hit_def long_result_def split: sum.splits option.splits)

lemma long_hit_plain:
  "plain_spellings long \<Longrightarrow> newline \<notin> set a \<Longrightarrow>
   long_hit py_re long a = (long_value long a \<noteq> None)"
  by (simp add: long_hit_result long_result_plain)

subsection \<open>The method on the store\<close>

lemma remove_iter_loop:
  assumes "self < length h"
  shows "remove_iter lib short long vals self (length h) i val (h @ [acc]) =
           Some (case remove_loop lib short long vals val acc (drop i (h ! self)) of
                   Inl exn \<Rightarrow> Inl exn
                 | Inr r \<Rightarrow> Inr (h @ [r]))"
proof (induction "length (h ! self) - i" arbitrary: i val acc)
  case 0
  then have "\<not> i < length ((h @ [acc]) ! self)" "drop i (h ! self) = []"
    using assms by (simp_all add: nth_append)
  then show ?case by (subst remove_iter.simps) simp
next
  case (Suc n)
  let ?arg = "h ! self ! i"
  have i: "i < length (h ! self)" using Suc.hyps(2) by simp
  have rd: "(h @ [acc]) ! self = h ! self" using assms by (simp add: nth_append)
  have wr: "(h @ [acc])[length h := (h @ [acc]) ! length h @ [?arg]] = h @ [acc @ [?arg]]"
    by simp
  have dr: "drop i (h ! self) = ?arg # drop (Suc i) (h ! self)"
    using i by (simp add: Cons_nth_drop_Suc)
  have n: "n = length (h ! self) - Suc i" using Suc.hyps(2) by simp
  note IH = Suc.hyps(1)[OF n]
  show ?case
    apply (subst remove_iter.simps)
    apply (simp only: rd wr dr i if_True Let_def remove_loop.simps IH)
    apply (simp split: sum.splits option.splits)
    done
qed

lemma Args_remove_loop:
  assumes "self < length h"
  shows "Args_remove lib h self short long vals =
           Some (case remove lib (h ! self) short long vals of
                   Inl exn \<Rightarrow> Inl exn
                 | Inr r \<Rightarrow> Inr (h @ [r], length h))"
  using remove_iter_loop[OF assms, of lib short long vals 0 False "[]"]
  by (simp add: Args_remove_def remove_def Let_def split: sum.splits)

subsection \<open>Claims on \<open>get\<close> and \<open>remove\<close>\<close>

lemma get_scan:
  "valid_patterns lib short long \<Longrightarrow>
   get lib args short long = first_flag (short_hit lib short) (long_result lib long) False args"
  by (simp add: get_def get_loop_scan)

lemma remove_dropped:
  "valid_patterns lib short long \<Longrightarrow>
   remove lib args short long vals =
     Inr (drop_flags (short_hit lib short) (long_hit lib long) vals False args)"
  by (simp add: remove_def remove_loop_scan)

lemma get_plain:
  assumes "plain_spellings short" and "plain_spellings long"
    and "\<forall>a\<in>set args. newline \<notin> set a"
  shows "get py_re args short long = Inr (get_spec short long args)"
proof -
  have "get py_re args short long =
          first_flag (short_hit py_re short) (long_result py_re long) False args"
    using assms(1,2) by (simp add: get_scan valid_patterns_plain)
  also have "\<dots> = first_flag (short_flag short)
                     (\<lambda>a. map_option (\<lambda>v. Inr (Some v)) (long_value long a)) False args"
    using assms by (intro first_flag_cong) (simp add: short_hit_plain long_result_plain)
  finally show ?thesis by (simp add: first_flag_spec)
qed

lemma remove_plain:
  assumes "plain_spellings short" and "plain_spellings long"
    and "\<forall>a\<in>set args. newline \<notin> set a"
  shows "remove py_re args short long vals = Inr (remove_spec short long vals args)"
proof -
  have "remove py_re args short long vals =
          Inr (drop_flags (short_hit py_re short) (long_hit py_re long) vals False args)"
    using assms(1,2) by (simp add: remove_dropped valid_patterns_plain)
  also have "drop_flags (short_hit py_re short) (long_hit py_re long) vals False args =
             drop_flags (short_flag short) (\<lambda>a. long_value long a \<noteq> None) vals False args"
    using assms by (intro drop_flags_cong) (simp add: short_hit_plain long_hit_plain)
  also have "\<dots> = remove_spec short long vals args"
    using drop_flags_spec[of short long vals args] by (rule conjunct1)
  finally show ?thesis .
qed

text \<open>
  C2 (amended). With spellings that hold no operator of regular expressions, in lists
  that are absent or non-empty, on an argument vector whose tokens hold no line feed,
  \<open>get\<close> raises nothing and is the left-to-right scan \<open>get_spec\<close>: the first token equal
  to \<open>-k\<close> for a short spelling \<open>k\<close> yields the token after it, whatever that token looks
  like (and nothing when it is the last token); before that, a token \<open>--key=value\<close> with a
  non-empty value, for the first long spelling \<open>key\<close> of the list that fits, yields that
  value; the earliest such token decides; null when there is none. The match is on the
  whole token: \<open>-tex\<close> does not match the short spelling \<open>t\<close>.
\<close>

theorem get_first_match:
  assumes "plain_spellings short" and "plain_spellings long"
    and "\<forall>a\<in>set args. newline \<notin> set a"
  shows "get py_re args short long = Inr (get_spec short long args) \<and>
         \<not> short_hit py_re (Some [''t'']) ''-tex''"
proof
  show "get py_re args short long = Inr (get_spec short long args)"
    using assms by (rule get_plain)
  have "plain_spellings (Some [''t''])"
    by (simp add: plain_spellings_def plain_def special_def)
  moreover have "newline \<notin> set ''-tex''" by (simp add: newline_def)
  ultimately have "short_hit py_re (Some [''t'']) ''-tex'' = short_flag (Some [''t'']) ''-tex''"
    by (rule short_hit_plain)
  then show "\<not> short_hit py_re (Some [''t'']) ''-tex''" by (simp add: short_flag_def)
qed

theorem get_first_match_witness:
  "plain_spellings (Some [''t'', ''w'']) \<and> plain_spellings (Some [''to'', ''write'']) \<and>
   list_all (\<lambda>a. newline \<notin> set a) [''-x'', ''--to=html'', ''-t'', ''pdf''] \<and>
   get py_re [''-x'', ''--to=html'', ''-t'', ''pdf''] (Some [''t'', ''w'']) (Some [''to'', ''write''])
     = Inr (Some ''html'') \<and>
   get_spec (Some [''t'', ''w'']) (Some [''to'', ''write'']) [''-x'', ''--to=html'', ''-t'', ''pdf'']
     = Some ''html''"
proof -
  have 1: "plain_spellings (Some [''t'', ''w''])" "plain_spellings (Some [''to'', ''write''])"
    by (simp_all add: plain_spellings_def plain_def special_def)
  have 2: "\<forall>a\<in>set [''-x'', ''--to=html'', ''-t'', ''pdf'']. newline \<notin> set a"
    by (simp add: newline_def)
  have 3: "get_spec (Some [''t'', ''w'']) (Some [''to'', ''write''])
             [''-x'', ''--to=html'', ''-t'', ''pdf''] = Some ''html''"
    by (simp add: short_flag_def long_value_def)
  show ?thesis using get_first_match[OF 1 2] 1 2 3 by (simp add: list_all_iff)
qed

text \<open>
  C2 as stated fails in three ways. The spellings are pasted into the pattern as they
  are: the spelling \<open>.\<close> makes \<open>-x\<close> a short flag, and the spelling \<open>*\<close> makes \<open>re.search\<close>
  raise \<open>re.error\<close> at the first token. \<open>$\<close> accepts \<open>-t\<close> followed by a line feed, so \<open>get\<close>
  returns the next token although no token equals \<open>-t\<close>. And for an empty list of short
  spellings the pattern \<open>^-()$\<close> accepts the token \<open>-\<close> although there is no spelling.
\<close>

theorem get_exact_counterexample:
  "get py_re [''-x'', ''v''] (Some [''.'']) None = Inr (Some ''v'') \<and>
   get_spec (Some [''.'']) None [''-x'', ''v''] = None \<and>
   get py_re [''-x'', ''v''] (Some [''*'']) None = Inl ReError \<and>
   get py_re [''-t\<newline>'', ''x''] (Some [''t'']) None = Inr (Some ''x'') \<and>
   get_spec (Some [''t'']) None [''-t\<newline>'', ''x''] = None \<and>
   get py_re [''-'', ''x''] (Some []) None = Inr (Some ''x'') \<and>
   get_spec (Some []) None [''-'', ''x''] = None"
  by code_simp

text \<open>
  C3 (amended). For every regular-expression library and all spellings whose patterns
  it compiles, \<open>remove\<close> raises nothing, returns a vector of its own and leaves the
  receiver, and every other object, as it was: the store after the call is the store
  before it with one new object, the returned one. With spellings that hold no operator
  of regular expressions, in lists that are absent or non-empty, on a receiver whose
  tokens hold no line feed, the new vector is the left-to-right scan \<open>remove_spec\<close>: a
  token equal to \<open>-k\<close> for a short spelling is dropped together with the token after it,
  except that, with a values filter, the token after it is kept exactly when it is not in
  the filter; a token \<open>--key=value\<close> with a long spelling \<open>key\<close> and a non-empty value is
  dropped; every other token is kept, in order.
\<close>

theorem remove_scan:
  assumes "self < length h"
  shows "(valid_patterns lib short long \<longrightarrow>
            (\<exists>r. Args_remove lib h self short long vals = Some (Inr (h @ [r], length h)))) \<and>
         (plain_spellings short \<and> plain_spellings long \<and>
          (\<forall>a\<in>set (h ! self). newline \<notin> set a) \<longrightarrow>
            Args_remove py_re h self short long vals =
              Some (Inr (h @ [remove_spec short long vals (h ! self)], length h)))"
proof (intro conjI impI)
  assume "valid_patterns lib short long"
  then show "\<exists>r. Args_remove lib h self short long vals = Some (Inr (h @ [r], length h))"
    using Args_remove_loop[OF assms, of lib short long vals] by (simp add: remove_dropped)
next
  assume "plain_spellings short \<and> plain_spellings long \<and>
          (\<forall>a\<in>set (h ! self). newline \<notin> set a)"
  then have "remove py_re (h ! self) short long vals = Inr (remove_spec short long vals (h ! self))"
    by (simp add: remove_plain)
  then show "Args_remove py_re h self short long vals =
               Some (Inr (h @ [remove_spec short long vals (h ! self)], length h))"
    using Args_remove_loop[OF assms, of py_re short long vals] by simp
qed

theorem remove_scan_witness:
  "valid_patterns py_re (Some [''t'', ''w'']) (Some [''to'', ''write'']) \<and>
   plain_spellings (Some [''t'', ''w'']) \<and> plain_spellings (Some [''to'', ''write'']) \<and>
   list_all (\<lambda>a. newline \<notin> set a) [''-t'', ''html'', ''-s'', ''--to=pdf'', ''-w'', ''pdf''] \<and>
   Args_remove py_re [[''-v''], [''-t'', ''html'', ''-s'', ''--to=pdf'', ''-w'', ''pdf'']] 1
      (Some [''t'', ''w'']) (Some [''to'', ''write'']) (Some [''pdf''])
     = Some (Inr ([[''-v''], [''-t'', ''html'', ''-s'', ''--to=pdf'', ''-w'', ''pdf''],
                   [''html'', ''-s'']], 2))"
proof -
  let ?h = "[[''-v''], [''-t'', ''html'', ''-s'', ''--to=pdf'', ''-w'', ''pdf'']]"
  have 0: "valid_patterns py_re (Some [''t'', ''w'']) (Some [''to'', ''write''])" by code_simp
  have 1: "plain_spellings (Some [''t'', ''w''])" "plain_spellings (Some [''to'', ''write''])"
    by (simp_all add: plain_spellings_def plain_def special_def)
  have 2: "(1::nat) < length ?h" by simp
  have 3: "\<forall>a\<in>set (?h ! 1). newline \<notin> set a" by (simp add: newline_def)
  have 4: "remove_spec (Some [''t'', ''w'']) (Some [''to'', ''write'']) (Some [''pdf'']) (?h ! 1)
             = [''html'', ''-s'']"
    by (simp add: short_flag_def long_value_def)
  have "Args_remove py_re ?h 1 (Some [''t'', ''w'']) (Some [''to'', ''write'']) (Some [''pdf''])
          = Some (Inr (?h @ [remove_spec (Some [''t'', ''w'']) (Some [''to'', ''write''])
                               (Some [''pdf'']) (?h ! 1)], length ?h))"
    using remove_scan[OF 2, of py_re "Some [''t'', ''w'']" "Some [''to'', ''write'']" "Some [''pdf'']"]
          1 3 by blast
  then show ?thesis using 0 1 3 unfolding 4 by (simp add: list_all_iff)
qed

text \<open>
  C3 as stated fails in three ways. The spellings are pasted into the pattern as they
  are: the one spelling \<open>t|w\<close> makes \<open>-t\<close> a short flag although no token equals \<open>-t|w\<close>, and
  the spelling \<open>*\<close> makes \<open>re.search\<close> raise \<open>re.error\<close>, so that no vector is returned. \<open>-t\<close>
  followed by a line feed is no exact match of a short spelling, yet \<open>remove\<close> drops it
  and the token after it. And for an empty list of short spellings \<open>-\<close> and the token
  after it are dropped.
\<close>

theorem remove_exact_counterexample:
  "remove py_re [''-t'', ''pdf'', ''x''] (Some [''t|w'']) None None = Inr [''x''] \<and>
   remove_spec (Some [''t|w'']) None None [''-t'', ''pdf'', ''x''] = [''-t'', ''pdf'', ''x''] \<and>
   remove py_re [''-x''] (Some [''*'']) None None = Inl ReError \<and>
   remove py_re [''-t\<newline>'', ''x''] (Some [''t'']) None None = Inr [] \<and>
   remove_spec (Some [''t'']) None None [''-t\<newline>'', ''x''] = [''-t\<newline>'', ''x''] \<and>
   remove py_re [''-'', ''x''] (Some []) None None = Inr [] \<and>
   remove_spec (Some []) None None [''-'', ''x''] = [''-'', ''x'']"
  by code_simp

lemma remove_clean:
  assumes "valid_patterns lib short long"
    and "vals = None \<or> values_disjoint lib short long args"
  shows "\<exists>r. remove lib args short long vals = Inr r \<and>
             (\<forall>a\<in>set r. \<not> is_flag lib short long a)"
  using remove_dropped[OF assms(1)] drop_flags_clean[OF assms(2)] by blast

lemma remove_no_flags:
  assumes "valid_patterns lib short long" and "\<forall>a\<in>set r. \<not> is_flag lib short long a"
  shows "remove lib r short long vals = Inr r"
proof -
  have "\<forall>a\<in>set r. \<not> short_hit lib short a \<and> \<not> long_hit lib long a"
    using assms(2) by (simp add: is_flag_def)
  then show ?thesis using assms(1) by (simp add: remove_dropped drop_flags_none)
qed

lemma get_no_flags:
  assumes "valid_patterns lib short long" and "\<forall>a\<in>set r. \<not> is_flag lib short long a"
  shows "get lib r short long = Inr None"
proof -
  have "\<forall>a\<in>set r. \<not> short_hit lib short a \<and> long_result lib long a = None"
    using assms(2) by (simp add: is_flag_def long_hit_result)
  then show ?thesis using assms(1) by (simp add: get_scan first_flag_none)
qed

text \<open>
  C7 (amended). For every regular-expression library and all spellings whose patterns
  it compiles, \<open>remove\<close> raises nothing and is idempotent when no values filter is given,
  and with a values filter on every argument vector in which no token that follows a
  short flag is itself a flag token; the flag tokens are those that the patterns match.
\<close>

theorem remove_idempotent:
  assumes "valid_patterns lib short long"
    and "vals = None \<or> values_disjoint lib short long args"
  shows "\<exists>r. remove lib args short long vals = Inr r \<and> remove lib r short long vals = Inr r"
  using remove_clean[OF assms] remove_no_flags[OF assms(1)] by blast

theorem remove_idempotent_witness:
  "valid_patterns py_re (Some [''.'']) (Some [''to'', ''write'']) \<and>
   values_disjoint py_re (Some [''.'']) (Some [''to'', ''write''])
      [''-t'', ''html'', ''tail'', ''--to=pdf'', ''-w'', ''pdf''] \<and>
   remove py_re [''-t'', ''html'', ''tail'', ''--to=pdf'', ''-w'', ''pdf'']
      (Some [''.'']) (Some [''to'', ''write'']) (Some [''pdf'']) = Inr [''html'', ''tail''] \<and>
   remove py_re [''html'', ''tail''] (Some [''.'']) (Some [''to'', ''write'']) (Some [''pdf''])
     = Inr [''html'', ''tail'']"
proof -
  have 1: "valid_patterns py_re (Some [''.'']) (Some [''to'', ''write''])" by code_simp
  have 2: "values_disjoint py_re (Some [''.'']) (Some [''to'', ''write''])
             [''-t'', ''html'', ''tail'', ''--to=pdf'', ''-w'', ''pdf'']" by code_simp
  have 3: "remove py_re [''-t'', ''html'', ''tail'', ''--to=pdf'', ''-w'', ''pdf'']
      (Some [''.'']) (Some [''to'', ''write'']) (Some [''pdf'']) = Inr [''html'', ''tail'']"
    by code_simp
  from remove_idempotent[OF 1 disjI2[OF 2], of "Some [''pdf'']"] 3
  have "remove py_re [''html'', ''tail''] (Some [''.'']) (Some [''to'', ''write'']) (Some [''pdf''])
     = Inr [''html'', ''tail'']" by simp
  then show ?thesis using 1 2 3 by simp
qed

text \<open>
  C7 as stated fails with the values filter of the PDF case: the value \<open>-t\<close> of the first
  \<open>-t\<close> is kept, since it is not \<open>pdf\<close>, and a second pass reads it as a flag. It also fails
  for the spelling \<open>*\<close>, where every pass over a non-empty vector raises \<open>re.error\<close>.
\<close>

theorem remove_idempotent_counterexample:
  "remove py_re [''-t'', ''-t'', ''pdf'']
      (Some [''t'', ''w'']) (Some [''to'', ''write'']) (Some [''pdf'']) = Inr [''-t'', ''pdf''] \<and>
   remove py_re [''-t'', ''pdf'']
      (Some [''t'', ''w'']) (Some [''to'', ''write'']) (Some [''pdf'']) = Inr [] \<and>
   remove py_re [''-x''] (Some [''*'']) None None = Inl ReError"
  by code_simp

text \<open>
  C8 (amended). For every regular-expression library and all spellings whose patterns
  it compiles, on an argument vector in which no token that follows a short flag is
  itself a flag token, \<open>remove\<close> (with or without a values filter) raises nothing, the
  vector it returns holds no token that the short or the long pattern matches, and \<open>get\<close>
  with the same spellings returns null on it.
\<close>

theorem remove_then_get:
  assumes "valid_patterns lib short long" and "values_disjoint lib short long args"
  shows "\<exists>r. remove lib args short long vals = Inr r \<and>
             (\<forall>a\<in>set r. \<not> is_flag lib short long a) \<and>
             get lib r short long = Inr None"
  using remove_clean[OF assms(1) disjI2[OF assms(2)]] get_no_flags[OF assms(1)] by blast

theorem remove_then_get_witness:
  "valid_patterns py_re (Some [''t'', ''w'']) (Some [''to'', ''write'']) \<and>
   values_disjoint py_re (Some [''t'', ''w'']) (Some [''to'', ''write''])
      [''-t'', ''html'', ''-s'', ''--to=pdf'', ''-w'', ''pdf''] \<and>
   remove py_re [''-t'', ''html'', ''-s'', ''--to=pdf'', ''-w'', ''pdf'']
      (Some [''t'', ''w'']) (Some [''to'', ''write'']) None = Inr [''-s''] \<and>
   list_all (\<lambda>a. \<not> is_flag py_re (Some [''t'', ''w'']) (Some [''to'', ''write'']) a) [''-s''] \<and>
   get py_re [''-s''] (Some [''t'', ''w'']) (Some [''to'', ''write'']) = Inr None"
proof -
  have 1: "valid_patterns py_re (Some [''t'', ''w'']) (Some [''to'', ''write''])" by code_simp
  have 2: "values_disjoint py_re (Some [''t'', ''w'']) (Some [''to'', ''write''])
             [''-t'', ''html'', ''-s'', ''--to=pdf'', ''-w'', ''pdf'']" by code_simp
  have 3: "remove py_re [''-t'', ''html'', ''-s'', ''--to=pdf'', ''-w'', ''pdf'']
      (Some [''t'', ''w'']) (Some [''to'', ''write'']) None = Inr [''-s'']"
    by code_simp
  from remove_then_get[OF 1 2, of None] 3
  have "(\<forall>a\<in>set [''-s'']. \<not> is_flag py_re (Some [''t'', ''w'']) (Some [''to'', ''write'']) a) \<and>
        get py_re [''-s''] (Some [''t'', ''w'']) (Some [''to'', ''write'']) = Inr None"
    by simp
  then show ?thesis using 1 2 3 by simp
qed

text \<open>
  C8 as stated fails for spellings that hold operators of regular expressions. With the
  spelling \<open>*\<close> the pattern does not compile, and \<open>remove\<close> and \<open>get\<close> raise \<open>re.error\<close>
  instead of returning. With the spelling \<open>.\<close> no token of \<open>-x -y z\<close> is the flag \<open>-.\<close>, so
  there is no flag to remove and no value that is a flag; yet the pattern matches \<open>-x\<close>,
  its value \<open>-y\<close> is kept by the values filter, and \<open>get\<close> on the result returns \<open>z\<close>.
\<close>

theorem remove_then_get_counterexample:
  "remove py_re [''-x'', ''v''] (Some [''*'']) None None = Inl ReError \<and>
   get py_re [''-x'', ''v''] (Some [''*'']) None = Inl ReError \<and>
   remove_spec (Some [''.'']) None (Some [''q'']) [''-x'', ''-y'', ''z''] = [''-x'', ''-y'', ''z''] \<and>
   remove py_re [''-x'', ''-y'', ''z''] (Some [''.'']) None (Some [''q'']) = Inr [''-y'', ''z''] \<and>
   get py_re [''-y'', ''z''] (Some [''.'']) None = Inr (Some ''z'')"
  by code_simp

text \<open>
  C10 (amended). For every regular-expression library and all spellings whose patterns
  it compiles: when the short pattern matches the last token of an argument vector and
  neither pattern matches a token before it, \<open>get\<close> returns null and raises nothing; the
  pending state set on the last token is dropped when the loop ends. With spellings
  that hold no operator, the tokens without line feed that the short pattern matches
  are the tokens \<open>-k\<close> for a short spelling \<open>k\<close> (\<open>short_hit_plain\<close>).
\<close>

theorem get_trailing_flag:
  assumes "valid_patterns lib (Some ss) long" and "short_hit lib (Some ss) a"
    and "\<forall>b\<in>set pre. \<not> is_flag lib (Some ss) long b"
  shows "get lib (pre @ [a]) (Some ss) long = Inr None"
proof -
  have "\<forall>b\<in>set pre. \<not> short_hit lib (Some ss) b \<and> long_result lib long b = None"
    using assms(3) by (simp add: is_flag_def long_hit_result)
  then have "first_flag (short_hit lib (Some ss)) (long_result lib long) False (pre @ [a]) =
             first_flag (short_hit lib (Some ss)) (long_result lib long) False [a]"
    by (rule first_flag_skip)
  then show ?thesis using assms(1,2) by (simp add: get_scan)
qed

theorem get_trailing_flag_witness:
  "valid_patterns py_re (Some [''t'', ''w'']) (Some [''to'', ''write'']) \<and>
   short_hit py_re (Some [''t'', ''w'']) ''-t'' \<and>
   list_all (\<lambda>b. \<not> is_flag py_re (Some [''t'', ''w'']) (Some [''to'', ''write'']) b)
      [''-f'', ''markdown''] \<and>
   get py_re [''-f'', ''markdown'', ''-t''] (Some [''t'', ''w'']) (Some [''to'', ''write''])
     = Inr None"
proof -
  have 1: "valid_patterns py_re (Some [''t'', ''w'']) (Some [''to'', ''write''])" by code_simp
  have 2: "short_hit py_re (Some [''t'', ''w'']) ''-t''" by code_simp
  have 3: "list_all (\<lambda>b. \<not> is_flag py_re (Some [''t'', ''w'']) (Some [''to'', ''write'']) b)
             [''-f'', ''markdown'']" by code_simp
  then have 4: "\<forall>b\<in>set [''-f'', ''markdown''].
                  \<not> is_flag py_re (Some [''t'', ''w'']) (Some [''to'', ''write'']) b"
    by (simp only: list_all_iff)
  show ?thesis using get_trailing_flag[OF 1 2 4] 1 2 3 by simp
qed

text \<open>
  C10 as stated fails when an earlier token matches: the first \<open>-t\<close> yields \<open>pdf\<close>, and the
  trailing \<open>-t\<close> is never reached. It also fails for the spelling \<open>*\<close>: the last token is
  \<open>-*\<close>, and \<open>get\<close> raises \<open>re.error\<close>.
\<close>

theorem get_trailing_flag_counterexample:
  "get py_re [''-t'', ''pdf'', ''-t''] (Some [''t'']) None = Inr (Some ''pdf'') \<and>
   get py_re [''-*''] (Some [''*'']) None = Inl ReError"
  by code_simp

section \<open>Properties of the ranking\<close>
























text \<open>
  C9 (amended). Selecting index \<open>-1\<close> is a cancellation: \<open>transform\<close> returns at once, no
  transformation is run, nothing is raised and nothing is shown; the state is as before.
\<close>

theorem transform_cancel: "transform e (-1) w = Inr w"
  by (simp add: transform_def)

text \<open>
  C9 as stated fails for the other indices outside the list: only \<open>-1\<close> is tested. An
  index past the end raises \<open>IndexError\<close>, and a negative index within the length counts
  from the end and runs that transformation.
\<close>

theorem transform_out_of_range_counterexample:
  "transform example_env 1 (example_world\<lparr>options := [''Markdown to HTML'']\<rparr>) = Inl IndexError \<and>
   transform example_env (-2)
       (example_world\<lparr>options := [''Markdown to HTML'', ''Markdown to PDF'']\<rparr>)
     = run example_env markdown_to_html
         (example_world\<lparr>options := [''Markdown to HTML'', ''Markdown to PDF'']\<rparr>)"
  by (simp add: transform_def py_index_def py_item_def example_env_def)

section \<open>Properties of the executor\<close>

subsection \<open>The configured parameters\<close>

text \<open>
  The spellings that \<open>run\<close> passes hold no operator, so its calls of \<open>get\<close> and \<open>remove\<close>
  raise nothing.
\<close>

lemma first_long_groups:
  "first_long alts s = Some m \<Longrightarrow> \<exists>g v. m = [Some g, Some v]"
  by (induction alts) (auto split: option.splits)

lemma long_result_py_re:
  assumes "plain_spellings long"
  shows "long_result py_re long a = None \<or> (\<exists>v. long_result py_re long a = Some (Inr v))"
proof (cases long)
  case None
  then show ?thesis by (simp add: long_result_def long_test_def)
next
  case (Some ls)
  then have p: "list_all plain ls" using assms by (simp add: plain_spellings_def)
  have test: "long_test py_re long a = Inr (long_search (map (map Lit) (alternatives ls)) a)"
    using Some by (simp add: long_test_def re_search_def py_re_long[OF p])
  show ?thesis
  proof (cases "long_search (map (map Lit) (alternatives ls)) a")
    case None
    then show ?thesis by (simp add: long_result_def test)
  next
    case (Some m)
    then have "\<exists>g v. m = [Some g, Some v]"
      by (auto simp: long_search_def split: option.splits dest: first_long_groups)
    then show ?thesis using Some by (auto simp: long_result_def test match_group_def)
  qed
qed

lemma first_flag_returns:
  "\<forall>a. lv a = None \<or> (\<exists>v. lv a = Some (Inr v)) \<Longrightarrow> \<exists>v. first_flag sh lv val args = Inr v"
proof (induction args arbitrary: val)
  case Nil
  show ?case by simp
next
  case (Cons a rest)
  from Cons.prems have "lv a = None \<or> (\<exists>v. lv a = Some (Inr v))" by blast
  then show ?case using Cons.IH[OF Cons.prems] by auto
qed

lemma get_returns:
  assumes "plain_spellings short" and "plain_spellings long"
  shows "\<exists>v. get py_re args short long = Inr v"
  using first_flag_returns[of "long_result py_re long" "short_hit py_re short" False args]
        long_result_py_re[OF assms(2)] get_scan[OF valid_patterns_plain[OF assms]]
  by simp

lemma format_spellings:
  "plain_spellings (Some [''t'', ''w''])" "plain_spellings (Some [''to'', ''write''])"
  "plain_spellings (Some [''o''])" "plain_spellings (Some [''output''])"
  by (simp_all add: plain_spellings_def plain_def special_def)

lemma output_format_returns: "\<exists>v. output_format args = Inr v"
  unfolding output_format_def by (rule get_returns[OF format_spellings(1,2)])

lemma pdf_handling_returns: "\<exists>r. pdf_handling oformat args = Inr r"
  by (simp add: pdf_handling_def remove_dropped[OF valid_patterns_plain[OF format_spellings(1,2)]])

lemma output_file_returns:
  "\<exists>p. output_file e oformat args = Inr (oformat, p, args) \<or>
       output_file e oformat args =
         Inr (oformat, p, args @ [''-o'', temp_name e @ ''.'' @ the oformat])"
proof -
  obtain v where "get py_re args (Some [''o'']) (Some [''output'']) = Inr v"
    using get_returns[OF format_spellings(3,4)] by blast
  then show ?thesis by (cases v) (auto simp: output_file_def Let_def)
qed

lemma final_args_returns: "\<exists>args. final_args e t = Inr args"
proof -
  obtain oformat where 1: "output_format (pandoc_arguments t) = Inr oformat"
    using output_format_returns by blast
  obtain r where 2: "pdf_handling oformat (pandoc_arguments t) = Inr r"
    using pdf_handling_returns by blast
  obtain p where "output_file e oformat r = Inr (oformat, p, r) \<or>
       output_file e oformat r = Inr (oformat, p, r @ [''-o'', temp_name e @ ''.'' @ the oformat])"
    using output_file_returns by blast
  then show ?thesis using 1 2 by (auto simp: final_args_def configured_def Let_def)
qed

subsection \<open>The input format\<close>

text \<open>
  The loop keeps the format of the first entry whose score is the highest, when that
  score is above zero: a later entry replaces it only with a greater score. When no
  entry scores above zero, \<open>iformat\<close> stays unbound.
\<close>

lemma iformat_loop_keep:
  "\<forall>p\<in>set sc. f (fst p) \<le> s \<Longrightarrow> iformat_loop f sc s cur = (s, cur)"
  by (induction sc) auto

lemma iformat_loop_first_max:
  "\<exists>p\<in>set sc. s < f (fst p) \<Longrightarrow>
   \<exists>pre sel x post.
     sc = pre @ (sel, x) # post \<and> s < f sel \<and>
     (\<forall>p\<in>set pre. f (fst p) < f sel) \<and> (\<forall>p\<in>set post. f (fst p) \<le> f sel) \<and>
     iformat_loop f sc s cur = (f sel, Some x)"
proof (induction sc arbitrary: s cur)
  case Nil
  then show ?case by simp
next
  case (Cons q rest)
  obtain sel x where q: "q = (sel, x)" by (cases q)
  show ?case
  proof (cases "f sel \<le> s")
    case True
    then have step: "iformat_loop f (q # rest) s cur = iformat_loop f rest s cur"
      by (simp add: q)
    have "\<exists>p\<in>set rest. s < f (fst p)" using Cons.prems True by (auto simp: q)
    then obtain pre sel' x' post where
      h: "rest = pre @ (sel', x') # post" "s < f sel'"
         "\<forall>p\<in>set pre. f (fst p) < f sel'" "\<forall>p\<in>set post. f (fst p) \<le> f sel'"
         "iformat_loop f rest s cur = (f sel', Some x')"
      using Cons.IH[of s cur] by blast
    have "q # rest = (q # pre) @ (sel', x') # post" using h(1) by simp
    moreover have "\<forall>p\<in>set (q # pre). f (fst p) < f sel'"
      using h(2,3) True by (auto simp: q)
    moreover have "iformat_loop f (q # rest) s cur = (f sel', Some x')"
      using step h(5) by simp
    ultimately show ?thesis using h(2,4) by blast
  next
    case big: False
    then have step: "iformat_loop f (q # rest) s cur = iformat_loop f rest (f sel) (Some x)"
      by (simp add: q)
    show ?thesis
    proof (cases "\<forall>p\<in>set rest. f (fst p) \<le> f sel")
      case True
      then have "iformat_loop f (q # rest) s cur = (f sel, Some x)"
        using step iformat_loop_keep[of rest f "f sel" "Some x"] by simp
      moreover have "q # rest = [] @ (sel, x) # rest" by (simp add: q)
      moreover have "\<forall>p\<in>set []. f (fst p) < f sel" by simp
      moreover have "s < f sel" using big by simp
      ultimately show ?thesis using True by blast
    next
      case False
      then have "\<exists>p\<in>set rest. f sel < f (fst p)" by (simp add: not_le)
      then obtain pre sel' x' post where
        h: "rest = pre @ (sel', x') # post" "f sel < f sel'"
           "\<forall>p\<in>set pre. f (fst p) < f sel'" "\<forall>p\<in>set post. f (fst p) \<le> f sel'"
           "iformat_loop f rest (f sel) (Some x) = (f sel', Some x')"
        using Cons.IH[of "f sel" "Some x"] by blast
      have "q # rest = (q # pre) @ (sel', x') # post" using h(1) by simp
      moreover have "\<forall>p\<in>set (q # pre). f (fst p) < f sel'"
        using h(2,3) by (auto simp: q)
      moreover have "iformat_loop f (q # rest) s cur = (f sel', Some x')"
        using step h(5) by simp
      moreover have "s < f sel'" using big h(2) by simp
      ultimately show ?thesis using h(4) by blast
    qed
  qed
qed

lemma resolve_iformat_unbound:
  "(resolve_iformat f sc = None) = (\<forall>p\<in>set sc. f (fst p) \<le> 0)"
proof (cases "\<forall>p\<in>set sc. f (fst p) \<le> 0")
  case True
  then show ?thesis by (simp add: resolve_iformat_def iformat_loop_keep)
next
  case False
  then have "\<exists>p\<in>set sc. 0 < f (fst p)" by (simp add: not_le)
  then obtain sel x where "iformat_loop f sc 0 None = (f sel, Some x)"
    using iformat_loop_first_max[of sc 0 f None] by blast
  then show ?thesis using False by (simp add: resolve_iformat_def)
qed

lemma resolve_iformat_highest:
  assumes "resolve_iformat f sc = Some x"
  shows "\<exists>pre sel post. sc = pre @ (sel, x) # post \<and> 0 < f sel \<and>
           (\<forall>p\<in>set pre. f (fst p) < f sel) \<and> (\<forall>p\<in>set post. f (fst p) \<le> f sel)"
proof -
  have "\<not> (\<forall>p\<in>set sc. f (fst p) \<le> 0)"
    using assms resolve_iformat_unbound[of f sc] by auto
  then have "\<exists>p\<in>set sc. 0 < f (fst p)" by (simp add: not_le)
  then obtain pre sel x' post where
    h: "sc = pre @ (sel, x') # post" "0 < f sel"
       "\<forall>p\<in>set pre. f (fst p) < f sel" "\<forall>p\<in>set post. f (fst p) \<le> f sel"
       "iformat_loop f sc 0 None = (f sel, Some x')"
    using iformat_loop_first_max[of sc 0 f None] by blast
  then have "x' = x" using assms by (simp add: resolve_iformat_def)
  then show ?thesis using h by blast
qed

text \<open>
  C4. With an empty scope, and likewise with a scope of which no selector matches the
  view, \<open>iformat\<close> is still unbound when \<open>cmd.extend(['-f', iformat])\<close> reads it: the
  command ends with Python's \<open>UnboundLocalError\<close>, before anything is shown or started.
  The command has no failure of its own for this case (the \<open>NoScopeMatchError\<close> of the
  claim) and no test that leaves \<open>-f\<close> out; the choice of the format among matching
  selectors is as the claim says (\<open>resolve_iformat_highest\<close>).
\<close>

theorem run_unbound_iformat:
  "run example_env (markdown_to_html\<lparr>scope := []\<rparr>) example_world = Inl UnboundLocalError \<and>
   run example_env latex_to_html example_world = Inl UnboundLocalError"
  by (simp add: run_def find_binary_def resolve_iformat_def example_env_def
                markdown_to_html_def latex_to_html_def)

subsection \<open>The error path\<close>

lemma run_started:
  assumes "find_binary e ''pandoc'' (pandoc_path e) = (Some pandoc, shown)"
    and "resolve_iformat (score_selector e) (scope t) = Some iformat"
    and "configured e t = Inr (oformat, output_path, args)"
  shows "run e t w =
           run_converter e t (0, length (content (view w))) (content (view w))
             ([pandoc, ''-f'', iformat] @ args) oformat output_path w"
  using assms by (simp add: run_def Let_def)

text \<open>When \<open>Popen\<close> raises, the exception ends the command.\<close>

lemma run_popen_raises:
  assumes "find_binary e ''pandoc'' (pandoc_path e) = (Some pandoc, shown)"
    and "resolve_iformat (score_selector e) (scope t) = Some iformat"
    and "final_args e t = Inr args"
    and "popen e ([pandoc, ''-f'', iformat] @ args) = Inl exn"
  shows "run e t w = Inl exn"
proof -
  obtain oformat output_path where c: "configured e t = Inr (oformat, output_path, args)"
    using assms(3) by (auto simp: final_args_def split: sum.splits)
  show ?thesis unfolding run_started[OF assms(1,2) c] using assms(4)
    by (simp add: run_converter_def)
qed




subsection \<open>The PDF case\<close>






end
